theory Spec2Isabelle
  imports Complex_Main "HOL-Library.Sublist"
begin

section \<open>Go values used by the package\<close>

text \<open>
  A \<open>time.Location\<close> is represented by its name and its offset east of UTC in seconds
  (zones with transitions are outside the model).  A \<open>time.Time\<close> is, as in the Go
  runtime, an instant (seconds and nanoseconds since January 1 of year 1, 00:00:00 UTC)
  together with a location; \<open>IsZero\<close> looks at the instant only.
\<close>

datatype location = Location string int

definition UTC :: location where
  "UTC = Location ''UTC'' 0"

fun zone_offset :: "location \<Rightarrow> int" where
  "zone_offset (Location name off) = off"

record gotime =
  sec :: int
  nsec :: int
  loc :: location

definition zero_time :: gotime where
  "zero_time = \<lparr>sec = 0, nsec = 0, loc = UTC\<rparr>"

definition IsZero :: "gotime \<Rightarrow> bool" where
  "IsZero t = (sec t = 0 \<and> nsec t = 0)"

section \<open>Settings\<close>

record Settings =
  DateOrder :: string
  Languages :: "string list"
  RelativeBase :: gotime
  EnableParsers :: "string list"
  Strict :: bool
  PreferredTimezone :: "location option"
  PreferDatesFrom :: string

definition DefaultSettings :: Settings where
  "DefaultSettings =
     \<lparr>DateOrder = ''MDY'',
      Languages = [''en''],
      RelativeBase = zero_time,
      EnableParsers = [''timestamp'', ''relative'', ''absolute'', ''timezone'', ''time'',
                       ''incomplete'', ''ordinal'', ''week''],
      Strict = False,
      PreferredTimezone = Some UTC,
      PreferDatesFrom = ''future''\<rparr>"

text \<open>
  \<open>normalizeSettings\<close> copies the seven fields into a fresh struct and then fills the
  unset ones.  The reading of the wall clock (\<open>time.Now()\<close>) is the parameter \<open>now\<close>.
\<close>

definition normalizeSettings :: "gotime \<Rightarrow> Settings \<Rightarrow> Settings" where
  "normalizeSettings now opts =
    (let s0 = \<lparr>DateOrder = DateOrder opts,
                Languages = Languages opts,
                RelativeBase = RelativeBase opts,
                EnableParsers = EnableParsers opts,
                Strict = Strict opts,
                PreferredTimezone = PreferredTimezone opts,
                PreferDatesFrom = PreferDatesFrom opts\<rparr>;
         s1 = (if DateOrder s0 = [] then s0\<lparr>DateOrder := ''MDY''\<rparr> else s0);
         s2 = (if length (Languages s1) = 0 then s1\<lparr>Languages := [''en'']\<rparr> else s1);
         s3 = (if IsZero (RelativeBase s2) then s2\<lparr>RelativeBase := now\<rparr> else s2);
         s4 = (if length (EnableParsers s3) = 0
               then s3\<lparr>EnableParsers := [''timestamp'', ''relative'', ''absolute'',
                      ''timezone'', ''time'', ''incomplete'', ''ordinal'', ''week'']\<rparr>
               else s3);
         s5 = (if PreferredTimezone s4 = None then s4\<lparr>PreferredTimezone := Some UTC\<rparr> else s4);
         s6 = (if PreferDatesFrom s5 = [] then s5\<lparr>PreferDatesFrom := ''future''\<rparr> else s5)
     in s6)"

fun isParserEnabled_loop :: "string list \<Rightarrow> string \<Rightarrow> bool" where
  "isParserEnabled_loop [] parserName = False"
| "isParserEnabled_loop (enabled # rest) parserName =
     (if enabled = parserName then True else isParserEnabled_loop rest parserName)"

definition isParserEnabled :: "Settings \<Rightarrow> string \<Rightarrow> bool" where
  "isParserEnabled settings parserName = isParserEnabled_loop (EnableParsers settings) parserName"

section \<open>Failures\<close>

text \<open>Modelled from the spec: the failure kinds of section 7 (the error types are
  declared in a file that is not among the sources): empty input, invalid format,
  invalid date, ambiguous date, and the generic parse failure of a strategy that does
  not recognise its input.  \<open>OtherError\<close> is any Go error value that is none of the
  package's typed failures, and \<open>Wrapped\<close> an error that wraps another one
  (\<open>fmt.Errorf\<close> with \<open>%w\<close>); \<open>errors.As\<close> walks such a chain.\<close>

datatype go_error =
    ErrEmptyInput
  | ErrInvalidFormat string
  | ErrInvalidDate string
  | ErrAmbiguousDate string
  | ErrParseFailure string
  | OtherError string
  | Wrapped string go_error

text \<open>Modelled from the spec: \<open>newInvalidFormatError\<close> (its file is not among the sources)
  builds the invalid-format failure for the offending input.\<close>

definition newInvalidFormatError :: "string \<Rightarrow> go_error" where
  "newInvalidFormatError inp = ErrInvalidFormat inp"

text \<open>\<open>errors.As(err, &ambigErr) || errors.As(err, &invalidErr)\<close>; an \<open>Inl\<close> value is never nil.\<close>

fun isSpecificError :: "go_error \<Rightarrow> bool" where
  "isSpecificError (ErrAmbiguousDate m) = True"
| "isSpecificError (ErrInvalidDate m) = True"
| "isSpecificError (Wrapped m e) = isSpecificError e"
| "isSpecificError e = False"

section \<open>Parser context and the functions \<open>ParseDate\<close> calls\<close>

record 'l parserContext =
  input :: string
  settings :: Settings
  autoDetectDateOrder :: bool
  languages :: "'l list"

datatype parser_id = Timestamp | Absolute | Relative | TimeOfDay | Incomplete | Ordinal | Week

record ParsedDate =
  Date :: gotime
  Position :: int
  Length :: int
  MatchedText :: string
  Confidence :: rat

text \<open>
  What a call reads from outside its arguments: the wall clock, the global language
  registry, and the strategy parsers themselves, whose files are not among the sources.
  Each strategy parser is a function of the parser context.  The last two fields belong
  to the extraction engine (see below).
\<close>

record 'l runtime =
  clock_now :: gotime
  GetMultiple :: "string list \<Rightarrow> 'l list"
  parseTimestamp :: "'l parserContext \<Rightarrow> go_error + gotime"
  parseAbsolute :: "'l parserContext \<Rightarrow> go_error + gotime"
  parseRelative :: "'l parserContext \<Rightarrow> go_error + gotime"
  tryParseTime :: "'l parserContext \<Rightarrow> go_error + gotime"
  tryParseIncompleteDate :: "'l parserContext \<Rightarrow> go_error + gotime"
  tryParseOrdinalDate :: "'l parserContext \<Rightarrow> go_error + gotime"
  tryParseWeekNumber :: "'l parserContext \<Rightarrow> go_error + gotime"
  plausibleStart :: "string \<Rightarrow> nat \<Rightarrow> bool"
  attemptAt :: "parser_id \<Rightarrow> 'l parserContext \<Rightarrow> nat \<Rightarrow> go_error + ParsedDate"

section \<open>\<open>ParseDate\<close>\<close>

text \<open>
  The outcome of a call is the returned value together with the list of strategy-parser
  calls made, in order, each with the context it was given.  The list is bookkeeping of
  the model: it is what "invoked" means below.
\<close>

type_synonym 'l call = "parser_id \<times> 'l parserContext"
type_synonym 'l outcome = "(go_error + gotime) \<times> 'l call list"

text \<open>The end of \<open>ParseDate\<close>: both branches return the invalid-format failure.\<close>

definition no_parser_succeeded :: "string \<Rightarrow> go_error list \<Rightarrow> 'l call list \<Rightarrow> 'l outcome" where
  "no_parser_succeeded inp parseErrors calls =
     (if length parseErrors > 0 then (Inl (newInvalidFormatError inp), calls)
      else (Inl (newInvalidFormatError inp), calls))"

text \<open>
  One of the seven numbered blocks of \<open>ParseDate\<close>; they differ only in the name tested
  and the parser called.  \<open>rest\<close> is the code after the block.
\<close>

definition try_block ::
  "string \<Rightarrow> parser_id \<Rightarrow> ('l parserContext \<Rightarrow> go_error + gotime) \<Rightarrow> 'l parserContext \<Rightarrow>
   (go_error list \<Rightarrow> 'l call list \<Rightarrow> 'l outcome) \<Rightarrow> go_error list \<Rightarrow> 'l call list \<Rightarrow> 'l outcome" where
  "try_block name pid parse ctx rest parseErrors calls =
     (if isParserEnabled (settings ctx) name then
        (case parse ctx of
           Inr result \<Rightarrow> (Inr result, calls @ [(pid, ctx)])
         | Inl err \<Rightarrow>
             if isSpecificError err then (Inl err, calls @ [(pid, ctx)])
             else rest (parseErrors @ [err]) (calls @ [(pid, ctx)]))
      else rest parseErrors calls)"

text \<open>The context \<open>ParseDate\<close> and \<open>ExtractDates\<close> build; \<open>None\<close> is the nil pointer.\<close>

definition make_context :: "'l runtime \<Rightarrow> string \<Rightarrow> Settings option \<Rightarrow> 'l parserContext" where
  "make_context rt inp opts0 =
     (let opts = (case opts0 of None \<Rightarrow> DefaultSettings | Some given \<Rightarrow> given);
          autoDetect = (DateOrder opts = []);
          settings = normalizeSettings (clock_now rt) opts;
          langs = GetMultiple rt (Languages settings)
      in \<lparr>input = inp, settings = settings, autoDetectDateOrder = autoDetect, languages = langs\<rparr>)"

definition ParseDate_run :: "'l runtime \<Rightarrow> string \<Rightarrow> Settings option \<Rightarrow> 'l outcome" where
  "ParseDate_run rt inp opts0 =
     (if inp = [] then (Inl ErrEmptyInput, [])
      else
        let ctx = make_context rt inp opts0 in
        try_block ''timestamp'' Timestamp (parseTimestamp rt) ctx
       (try_block ''absolute'' Absolute (parseAbsolute rt) ctx
       (try_block ''relative'' Relative (parseRelative rt) ctx
       (try_block ''time'' TimeOfDay (tryParseTime rt) ctx
       (try_block ''incomplete'' Incomplete (tryParseIncompleteDate rt) ctx
       (try_block ''ordinal'' Ordinal (tryParseOrdinalDate rt) ctx
       (try_block ''week'' Week (tryParseWeekNumber rt) ctx
       (no_parser_succeeded inp))))))) [] [])"

definition ParseDate :: "'l runtime \<Rightarrow> string \<Rightarrow> Settings option \<Rightarrow> go_error + gotime" where
  "ParseDate rt inp opts0 = fst (ParseDate_run rt inp opts0)"

definition ParseDate_calls :: "'l runtime \<Rightarrow> string \<Rightarrow> Settings option \<Rightarrow> parser_id list" where
  "ParseDate_calls rt inp opts0 = map fst (snd (ParseDate_run rt inp opts0))"

section \<open>Vocabulary for the dispatch properties\<close>

fun parser_name :: "parser_id \<Rightarrow> string" where
  "parser_name Timestamp = ''timestamp''"
| "parser_name Absolute = ''absolute''"
| "parser_name Relative = ''relative''"
| "parser_name TimeOfDay = ''time''"
| "parser_name Incomplete = ''incomplete''"
| "parser_name Ordinal = ''ordinal''"
| "parser_name Week = ''week''"

fun run_parser :: "'l runtime \<Rightarrow> parser_id \<Rightarrow> 'l parserContext \<Rightarrow> go_error + gotime" where
  "run_parser rt Timestamp = parseTimestamp rt"
| "run_parser rt Absolute = parseAbsolute rt"
| "run_parser rt Relative = parseRelative rt"
| "run_parser rt TimeOfDay = tryParseTime rt"
| "run_parser rt Incomplete = tryParseIncompleteDate rt"
| "run_parser rt Ordinal = tryParseOrdinalDate rt"
| "run_parser rt Week = tryParseWeekNumber rt"

definition priority_order :: "parser_id list" where
  "priority_order = [Timestamp, Absolute, Relative, TimeOfDay, Incomplete, Ordinal, Week]"

definition enabled_parsers :: "Settings \<Rightarrow> parser_id list" where
  "enabled_parsers s = filter (\<lambda>p. isParserEnabled s (parser_name p)) priority_order"

text \<open>A parser result that makes \<open>ParseDate\<close> go on to the next block.\<close>

fun fails_generically :: "go_error + gotime \<Rightarrow> bool" where
  "fails_generically (Inl e) = (\<not> isSpecificError e)"
| "fails_generically (Inr t) = False"

text \<open>
  The dispatch as section 4.1 of the spec words it: try each enabled strategy parser in
  order, return the first success, propagate a specific failure at once, go on after a
  generic one, and raise invalid-format when all have failed generically.  It is
  compared with \<open>ParseDate_run\<close> in \<open>ParseDate_run_dispatch\<close> below.
\<close>

fun dispatch ::
  "'l runtime \<Rightarrow> 'l parserContext \<Rightarrow> parser_id list \<Rightarrow> go_error list \<Rightarrow> 'l call list \<Rightarrow> 'l outcome" where
  "dispatch rt ctx [] parseErrors calls = no_parser_succeeded (input ctx) parseErrors calls"
| "dispatch rt ctx (p # ps) parseErrors calls =
     (case run_parser rt p ctx of
        Inr result \<Rightarrow> (Inr result, calls @ [(p, ctx)])
      | Inl err \<Rightarrow>
          if isSpecificError err then (Inl err, calls @ [(p, ctx)])
          else dispatch rt ctx ps (parseErrors @ [err]) (calls @ [(p, ctx)]))"

section \<open>Calendar arithmetic\<close>

text \<open>Modelled from the spec: the calendar functions of section 4.4 (their file is not
  among the sources): the leap-year test (divisible by 4, not by 100 unless by 400), the
  days-in-month lookup adjusted for leap years, and validity of a calendar date.\<close>

definition isLeapYear :: "int \<Rightarrow> bool" where
  "isLeapYear y = (y mod 4 = 0 \<and> (y mod 100 \<noteq> 0 \<or> y mod 400 = 0))"

definition daysInMonth :: "int \<Rightarrow> int \<Rightarrow> int" where
  "daysInMonth y m =
     (if m = 2 then (if isLeapYear y then 29 else 28)
      else if m = 4 \<or> m = 6 \<or> m = 9 \<or> m = 11 then 30
      else 31)"

definition validDate :: "int \<Rightarrow> int \<Rightarrow> int \<Rightarrow> bool" where
  "validDate y m d = (1 \<le> m \<and> m \<le> 12 \<and> 1 \<le> d \<and> d \<le> daysInMonth y m)"

text \<open>
  Go's \<open>time.Date\<close> on components that form a valid calendar date and clock time: the
  instant of that wall-clock reading in the given location, counted from January 1 of
  year 1 in the proleptic Gregorian calendar.
\<close>

definition daysBeforeYear :: "int \<Rightarrow> int" where
  "daysBeforeYear y = 365 * (y - 1) + (y - 1) div 4 - (y - 1) div 100 + (y - 1) div 400"

definition daysBeforeMonth :: "int \<Rightarrow> int \<Rightarrow> int" where
  "daysBeforeMonth y m = sum_list (map (daysInMonth y) [1..m - 1])"

definition goDate :: "int \<Rightarrow> int \<Rightarrow> int \<Rightarrow> int \<Rightarrow> int \<Rightarrow> int \<Rightarrow> int \<Rightarrow> location \<Rightarrow> gotime" where
  "goDate y m d h mi s ns l =
     \<lparr>sec = (daysBeforeYear y + daysBeforeMonth y m + (d - 1)) * 86400
              + h * 3600 + mi * 60 + s - zone_offset l,
      nsec = ns,
      loc = l\<rparr>"

section \<open>The numeric grammars of the absolute-date strategy\<close>

text \<open>Modelled from the spec: the text functions the numeric grammars of section 4.2 are
  written with (the parsers' files are not among the sources): ASCII decimal digits and
  their values, the value of a digit string, ASCII whitespace and its trimming at both
  ends (section 4.1: a parser must consume the entire input "after trimming incidental
  whitespace"), and splitting at a separator character.\<close>

definition isDigit :: "char \<Rightarrow> bool" where
  "isDigit c = (48 \<le> (of_char c :: nat) \<and> (of_char c :: nat) \<le> 57)"

definition isSpace :: "char \<Rightarrow> bool" where
  "isSpace c = (c = CHR '' '' \<or> c = CHR 0x09 \<or> c = CHR 0x0A \<or> c = CHR 0x0B \<or> c = CHR 0x0C
                \<or> c = CHR 0x0D)"

definition trimSpace :: "string \<Rightarrow> string" where
  "trimSpace s = rev (dropWhile isSpace (rev (dropWhile isSpace s)))"

definition digitVal :: "char \<Rightarrow> int" where
  "digitVal c = int (of_char c) - 48"

definition number :: "string \<Rightarrow> int" where
  "number ds = foldl (\<lambda>n c. 10 * n + digitVal c) 0 ds"

definition allDigits :: "string \<Rightarrow> bool" where
  "allDigits ds = (ds \<noteq> [] \<and> list_all isDigit ds)"

fun splitOn :: "char \<Rightarrow> string \<Rightarrow> string list" where
  "splitOn sep [] = [[]]"
| "splitOn sep (c # cs) =
     (if c = sep then [] # splitOn sep cs
      else (case splitOn sep cs of
              [] \<Rightarrow> [[c]]
            | g # gs \<Rightarrow> (c # g) # gs))"

text \<open>Modelled from the spec: the two-digit-year rule of section 4.2, "00-69 map to
  2000-2069, 70-99 map to 1970-1999" (the parser that applies it is not among the
  sources).\<close>

definition twoDigitYear :: "int \<Rightarrow> int" where
  "twoDigitYear yy = (if yy < 70 then 2000 + yy else 1900 + yy)"

text \<open>Modelled from the spec: an ISO-8601 calendar string \<open>YYYY-MM-DD\<close> (four, two and two
  digits, separated by hyphens).\<close>

definition isoCalendar :: "string \<Rightarrow> (int \<times> int \<times> int) option" where
  "isoCalendar s =
     (case splitOn CHR ''-'' s of
        [y, m, d] \<Rightarrow>
          if allDigits y \<and> length y = 4 \<and> allDigits m \<and> length m = 2 \<and> allDigits d \<and> length d = 2
          then Some (number y, number m, number d)
          else None
      | _ \<Rightarrow> None)"

text \<open>Modelled from the spec: a purely numeric, un-prefixed date whose year comes last:
  two components of one or two digits and a year field of two digits (section 4.2's
  two-digit years) or of four or more digits, separated by \<open>/\<close> or by \<open>-\<close>.  The year
  field is returned already resolved.\<close>

definition yearLastWith :: "char \<Rightarrow> string \<Rightarrow> (int \<times> int \<times> int) option" where
  "yearLastWith sep s =
     (case splitOn sep s of
        [a, b, c] \<Rightarrow>
          if allDigits a \<and> length a \<le> 2 \<and> allDigits b \<and> length b \<le> 2 \<and> allDigits c
             \<and> (length c = 2 \<or> 4 \<le> length c)
          then Some (number a, number b, if length c = 2 then twoDigitYear (number c) else number c)
          else None
      | _ \<Rightarrow> None)"

text \<open>Modelled from the spec: the separators of a year-last numeric date, \<open>/\<close> tried
  before \<open>-\<close>.\<close>

definition yearLast :: "string \<Rightarrow> (int \<times> int \<times> int) option" where
  "yearLast s =
     (case yearLastWith CHR ''/'' s of
        Some t \<Rightarrow> Some t
      | None \<Rightarrow> yearLastWith CHR ''-'' s)"

text \<open>Modelled from the spec: the default timezone of the configuration snapshot.\<close>

definition default_zone :: "Settings \<Rightarrow> location" where
  "default_zone s = (case PreferredTimezone s of None \<Rightarrow> UTC | Some l \<Rightarrow> l)"

text \<open>Modelled from the spec: validation and assembly.  Components that do not form a
  calendar date give the invalid-date failure (section 4.4: "never silently clamp");
  otherwise the result is that date at midnight.\<close>

definition assemble :: "'l parserContext \<Rightarrow> int \<Rightarrow> int \<Rightarrow> int \<Rightarrow> go_error + gotime" where
  "assemble ctx y m d =
     (if validDate y m d then Inr (goDate y m d 0 0 0 0 (default_zone (settings ctx)))
      else Inl (ErrInvalidDate (input ctx)))"

text \<open>Modelled from the spec: the roles of the two leading components under a configured
  ordering preference: \<open>DMY\<close> puts the day first, \<open>MDY\<close> and \<open>YMD\<close> the month.  The
  result is (month, day).\<close>

definition byPreference :: "string \<Rightarrow> int \<Rightarrow> int \<Rightarrow> int \<times> int" where
  "byPreference order a b = (if order = ''DMY'' then (b, a) else (a, b))"

text \<open>Modelled from the spec: the disambiguation policy of section 4.3 for the two
  leading components \<open>a\<close>, \<open>b\<close> of a year-last numeric date; the result is (month, day).
  With the ordering preference left unset (auto-detection): a first component above 12
  is the day, a second component above 12 makes the first the month, otherwise strict
  mode raises the ambiguous-date failure when both assignments are calendar-valid, and
  else the configured (defaulted) ordering decides.  With a preference set, it decides.\<close>

definition monthDay :: "'l parserContext \<Rightarrow> int \<Rightarrow> int \<Rightarrow> int \<Rightarrow> go_error + (int \<times> int)" where
  "monthDay ctx a b y =
     (if autoDetectDateOrder ctx then
        (if a > 12 then Inr (b, a)
         else if b > 12 then Inr (a, b)
         else if Strict (settings ctx) \<and> validDate y a b \<and> validDate y b a
              then Inl (ErrAmbiguousDate (input ctx))
         else Inr (byPreference (DateOrder (settings ctx)) a b))
      else Inr (byPreference (DateOrder (settings ctx)) a b))"

text \<open>Modelled from the spec: the absolute-date strategy on the numeric grammars above,
  applied to the whole input after trimming whitespace.  \<open>other\<close> stands for the rest of
  the strategy (month names, times of day, time zones), which needs the lexical tables
  and is not modelled.\<close>

definition parseAbsolute_numeric ::
  "('l parserContext \<Rightarrow> go_error + gotime) \<Rightarrow> 'l parserContext \<Rightarrow> go_error + gotime" where
  "parseAbsolute_numeric other ctx =
     (let s = trimSpace (input ctx) in
      case isoCalendar s of
        Some (y, m, d) \<Rightarrow> assemble ctx y m d
      | None \<Rightarrow>
         (case yearLast s of
            Some (a, b, y) \<Rightarrow>
              (case monthDay ctx a b y of
                 Inl e \<Rightarrow> Inl e
               | Inr (m, d) \<Rightarrow> assemble ctx y m d)
          | None \<Rightarrow> other ctx))"

section \<open>The extraction engine\<close>

text \<open>
  \<open>extractAllDates\<close>, which \<open>ExtractDates\<close> calls, is not among the sources.  It is
  modelled after section 4.5 of the spec, one definition per step.
\<close>

text \<open>Modelled from the spec: the scan, left to right over the character offsets; at an
  offset that passes the pre-filter every enabled strategy is attempted.  \<open>scan\<close> lists
  the attempts made.\<close>

definition attempts_at :: "'l runtime \<Rightarrow> 'l parserContext \<Rightarrow> nat \<Rightarrow> (nat \<times> parser_id) list" where
  "attempts_at rt ctx i =
     (if plausibleStart rt (input ctx) i
      then map (\<lambda>p. (i, p)) (enabled_parsers (settings ctx))
      else [])"

definition scan :: "'l runtime \<Rightarrow> 'l parserContext \<Rightarrow> (nat \<times> parser_id) list" where
  "scan rt ctx = concat (map (attempts_at rt ctx) [0..<length (input ctx)])"

text \<open>Modelled from the spec: the candidate an attempt yields; a failed attempt is a
  non-match at that offset and yields none (section 7: per-offset failures are never
  raised to the caller).\<close>

fun candidate_of :: "'l runtime \<Rightarrow> 'l parserContext \<Rightarrow> nat \<times> parser_id \<Rightarrow> ParsedDate list" where
  "candidate_of rt ctx (i, p) =
     (case attemptAt rt p ctx i of
        Inr c \<Rightarrow> [c]
      | Inl e \<Rightarrow> [])"

text \<open>Modelled from the spec: two spans \<open>[Position, Position + Length)\<close> overlap.\<close>

definition overlaps :: "ParsedDate \<Rightarrow> ParsedDate \<Rightarrow> bool" where
  "overlaps a b = (Position a < Position b + Length b \<and> Position b < Position a + Length a)"

text \<open>Modelled from the spec: the ranking of candidates, "by descending match length,
  then descending confidence, then ascending start offset", and the sort by it.\<close>

definition ranks_before :: "ParsedDate \<Rightarrow> ParsedDate \<Rightarrow> bool" where
  "ranks_before a b =
     (Length a > Length b
      \<or> (Length a = Length b
         \<and> (Confidence a > Confidence b
            \<or> (Confidence a = Confidence b \<and> Position a \<le> Position b))))"

fun insert_ranked :: "ParsedDate \<Rightarrow> ParsedDate list \<Rightarrow> ParsedDate list" where
  "insert_ranked c [] = [c]"
| "insert_ranked c (x # xs) = (if ranks_before c x then c # x # xs else x # insert_ranked c xs)"

definition rank_sort :: "ParsedDate list \<Rightarrow> ParsedDate list" where
  "rank_sort cs = foldr insert_ranked cs []"

text \<open>Modelled from the spec: greedy acceptance: a candidate is accepted if its span
  does not overlap any already-accepted span, and is discarded entirely otherwise.\<close>

fun accept_greedy :: "ParsedDate list \<Rightarrow> ParsedDate list \<Rightarrow> ParsedDate list" where
  "accept_greedy accepted [] = accepted"
| "accept_greedy accepted (c # cs) =
     (if list_ex (overlaps c) accepted then accept_greedy accepted cs
      else accept_greedy (accepted @ [c]) cs)"

text \<open>Modelled from the spec: \<open>extractAllDates\<close>: scan, rank, accept greedily, and
  "finally sort accepted candidates by ascending start offset before returning".  The
  second component is the list of attempts made.\<close>

definition extractAllDates ::
  "'l runtime \<Rightarrow> 'l parserContext \<Rightarrow> (go_error + ParsedDate list) \<times> (nat \<times> parser_id) list" where
  "extractAllDates rt ctx =
     (let tried = scan rt ctx;
          candidates = concat (map (candidate_of rt ctx) tried);
          accepted = accept_greedy [] (rank_sort candidates)
      in (Inr (sort_key Position accepted), tried))"

text \<open>\<open>ExtractDates\<close>, with the list of strategy attempts made.\<close>

definition ExtractDates_run ::
  "'l runtime \<Rightarrow> string \<Rightarrow> Settings option \<Rightarrow> (go_error + ParsedDate list) \<times> (nat \<times> parser_id) list" where
  "ExtractDates_run rt txt opts0 =
     (if txt = [] then (Inl ErrEmptyInput, [])
      else extractAllDates rt (make_context rt txt opts0))"

definition ExtractDates :: "'l runtime \<Rightarrow> string \<Rightarrow> Settings option \<Rightarrow> go_error + ParsedDate list" where
  "ExtractDates rt txt opts0 = fst (ExtractDates_run rt txt opts0)"

section \<open>A runtime for concrete runs\<close>

text \<open>
  The examples below run \<open>ParseDate\<close> and \<open>ExtractDates\<close> on purely numeric dates.  They
  use the numeric model of the absolute-date strategy; the strategies that do not
  recognise such inputs report a generic no-match.
\<close>

definition no_match :: "'l parserContext \<Rightarrow> go_error + gotime" where
  "no_match ctx = Inl (ErrParseFailure (input ctx))"

text \<open>Modelled from the spec: the relative-date strategy computes from the base instant
  of the configuration snapshot.  \<open>base_instant\<close> stands for it on the one expression
  \<open>now\<close>, taken to have offset zero and so to resolve to the base instant itself; any
  other input is a generic no-match.\<close>

definition base_instant :: "'l parserContext \<Rightarrow> go_error + gotime" where
  "base_instant ctx =
     (if trimSpace (input ctx) = ''now'' then Inr (RelativeBase (settings ctx))
      else Inl (ErrParseFailure (input ctx)))"

text \<open>A parser that raises the given failure on every input.\<close>

definition raises :: "go_error \<Rightarrow> 'l parserContext \<Rightarrow> go_error + gotime" where
  "raises e ctx = Inl e"

text \<open>Partial attempts for the extraction examples: the absolute strategy matches an ISO
  calendar date starting at the offset (confidence 1), the incomplete-date strategy a
  bare four-digit year (a lower confidence); nothing else matches.\<close>

definition example_attempt :: "parser_id \<Rightarrow> 'l parserContext \<Rightarrow> nat \<Rightarrow> go_error + ParsedDate" where
  "example_attempt p ctx i =
     (let rest = drop i (input ctx) in
      if p = Absolute then
        (case isoCalendar (take 10 rest) of
           Some (y, m, d) \<Rightarrow>
             (case assemble ctx y m d of
                Inr t \<Rightarrow> Inr \<lparr>Date = t, Position = int i, Length = 10,
                             MatchedText = take 10 rest, Confidence = 1\<rparr>
              | Inl e \<Rightarrow> Inl e)
         | None \<Rightarrow> Inl (ErrParseFailure rest))
      else if p = Incomplete \<and> allDigits (take 4 rest) \<and> length (take 4 rest) = 4 then
        Inr \<lparr>Date = goDate (number (take 4 rest)) 1 1 0 0 0 0 (default_zone (settings ctx)),
             Position = int i, Length = 4, MatchedText = take 4 rest, Confidence = 1 / 2\<rparr>
      else Inl (ErrParseFailure rest))"

definition example_runtime :: "gotime \<Rightarrow> 'l runtime" where
  "example_runtime now =
     \<lparr>clock_now = now,
      GetMultiple = (\<lambda>codes. []),
      parseTimestamp = no_match,
      parseAbsolute = parseAbsolute_numeric no_match,
      parseRelative = base_instant,
      tryParseTime = no_match,
      tryParseIncompleteDate = no_match,
      tryParseOrdinalDate = no_match,
      tryParseWeekNumber = no_match,
      plausibleStart = (\<lambda>txt i. isDigit (txt ! i)),
      attemptAt = example_attempt\<rparr>"

definition noon_2024_10_02 :: gotime where
  "noon_2024_10_02 = goDate 2024 10 2 12 0 0 0 UTC"

definition unset_settings :: Settings where
  "unset_settings =
     \<lparr>DateOrder = [], Languages = [], RelativeBase = zero_time, EnableParsers = [],
      Strict = True, PreferredTimezone = None, PreferDatesFrom = []\<rparr>"


text \<open>The ISO-8601 calendar string \<open>YYYY-MM-DD\<close> of a date: four, two and two decimal
  digits with leading zeros.\<close>

definition digitChar :: "nat \<Rightarrow> char" where
  "digitChar k = char_of (48 + k)"

definition isoString :: "int \<Rightarrow> int \<Rightarrow> int \<Rightarrow> string" where
  "isoString y m d =
     [digitChar (nat (y div 1000)), digitChar (nat (y div 100 mod 10)),
      digitChar (nat (y div 10 mod 10)), digitChar (nat (y mod 10)),
      CHR ''-'',
      digitChar (nat (m div 10)), digitChar (nat (m mod 10)),
      CHR ''-'',
      digitChar (nat (d div 10)), digitChar (nat (d mod 10))]"

text \<open>The parsers the loop calls: up to and including the first one that does not fail
  generically.\<close>

fun tried :: "'l runtime \<Rightarrow> 'l parserContext \<Rightarrow> parser_id list \<Rightarrow> parser_id list" where
  "tried rt ctx [] = []"
| "tried rt ctx (p # ps) =
     p # (if fails_generically (run_parser rt p ctx) then tried rt ctx ps else [])"

section \<open>Basic facts\<close>

lemma isParserEnabled_loop_mem: "isParserEnabled_loop xs n \<longleftrightarrow> n \<in> set xs"
  by (induction xs) auto

lemma isParserEnabled_mem: "isParserEnabled s n \<longleftrightarrow> n \<in> set (EnableParsers s)"
  by (simp add: isParserEnabled_def isParserEnabled_loop_mem)

lemma normalizeSettings_fields:
  "DateOrder (normalizeSettings now opts) = (if DateOrder opts = [] then ''MDY'' else DateOrder opts)"
  "Languages (normalizeSettings now opts) = (if Languages opts = [] then [''en''] else Languages opts)"
  "RelativeBase (normalizeSettings now opts) =
     (if IsZero (RelativeBase opts) then now else RelativeBase opts)"
  "EnableParsers (normalizeSettings now opts) =
     (if EnableParsers opts = []
      then [''timestamp'', ''relative'', ''absolute'', ''timezone'', ''time'', ''incomplete'',
            ''ordinal'', ''week'']
      else EnableParsers opts)"
  "Strict (normalizeSettings now opts) = Strict opts"
  "PreferredTimezone (normalizeSettings now opts) =
     (if PreferredTimezone opts = None then Some UTC else PreferredTimezone opts)"
  "PreferDatesFrom (normalizeSettings now opts) =
     (if PreferDatesFrom opts = [] then ''future'' else PreferDatesFrom opts)"
  unfolding normalizeSettings_def Let_def
  by (simp_all add: if_distrib[where f = DateOrder] if_distrib[where f = Languages]
      if_distrib[where f = RelativeBase] if_distrib[where f = EnableParsers]
      if_distrib[where f = Strict] if_distrib[where f = PreferredTimezone]
      if_distrib[where f = PreferDatesFrom] split del: if_split cong: if_cong)

lemma make_context_fields:
  "input (make_context rt inp opts0) = inp"
  "settings (make_context rt inp opts0) =
     normalizeSettings (clock_now rt) (case opts0 of None \<Rightarrow> DefaultSettings | Some given \<Rightarrow> given)"
  "autoDetectDateOrder (make_context rt inp opts0) =
     (DateOrder (case opts0 of None \<Rightarrow> DefaultSettings | Some given \<Rightarrow> given) = [])"
  "languages (make_context rt inp opts0) = GetMultiple rt (Languages (settings (make_context rt inp opts0)))"
  by (simp_all add: make_context_def Let_def)

lemma try_block_dispatch:
  assumes "\<And>errs cs. rest errs cs = dispatch rt ctx (filter (\<lambda>q. isParserEnabled (settings ctx) (parser_name q)) ps) errs cs"
  shows "try_block (parser_name p) p (run_parser rt p) ctx rest errs cs =
         dispatch rt ctx (filter (\<lambda>q. isParserEnabled (settings ctx) (parser_name q)) (p # ps)) errs cs"
  using assms by (auto simp: try_block_def split: sum.splits)

lemma ParseDate_run_dispatch:
  assumes "inp \<noteq> []"
  shows "ParseDate_run rt inp opts0 =
         dispatch rt (make_context rt inp opts0)
           (enabled_parsers (settings (make_context rt inp opts0))) [] []"
proof -
  define ctx where "ctx = make_context rt inp opts0"
  define en where "en = (\<lambda>ps. filter (\<lambda>q. isParserEnabled (settings ctx) (parser_name q)) ps)"
  have inp: "input ctx = inp"
    by (simp add: ctx_def make_context_def Let_def)
  have b0: "\<And>errs cs. no_parser_succeeded inp errs cs = dispatch rt ctx (en []) errs cs"
    by (simp add: inp en_def)
  have b1: "\<And>errs cs. try_block ''week'' Week (tryParseWeekNumber rt) ctx
       (no_parser_succeeded inp) errs cs = dispatch rt ctx (en [Week]) errs cs"
    using try_block_dispatch[of "no_parser_succeeded inp" rt ctx "[]" Week] b0
    unfolding en_def by simp
  have b2: "\<And>errs cs. try_block ''ordinal'' Ordinal (tryParseOrdinalDate rt) ctx
       (try_block ''week'' Week (tryParseWeekNumber rt) ctx (no_parser_succeeded inp)) errs cs
        = dispatch rt ctx (en [Ordinal, Week]) errs cs"
    using try_block_dispatch[of _ rt ctx "[Week]" Ordinal] b1
    unfolding en_def by simp
  have b3: "\<And>errs cs. try_block ''incomplete'' Incomplete (tryParseIncompleteDate rt) ctx
       (try_block ''ordinal'' Ordinal (tryParseOrdinalDate rt) ctx
       (try_block ''week'' Week (tryParseWeekNumber rt) ctx (no_parser_succeeded inp))) errs cs
        = dispatch rt ctx (en [Incomplete, Ordinal, Week]) errs cs"
    using try_block_dispatch[of _ rt ctx "[Ordinal, Week]" Incomplete] b2
    unfolding en_def by simp
  have b4: "\<And>errs cs. try_block ''time'' TimeOfDay (tryParseTime rt) ctx
       (try_block ''incomplete'' Incomplete (tryParseIncompleteDate rt) ctx
       (try_block ''ordinal'' Ordinal (tryParseOrdinalDate rt) ctx
       (try_block ''week'' Week (tryParseWeekNumber rt) ctx (no_parser_succeeded inp)))) errs cs
        = dispatch rt ctx (en [TimeOfDay, Incomplete, Ordinal, Week]) errs cs"
    using try_block_dispatch[of _ rt ctx "[Incomplete, Ordinal, Week]" TimeOfDay] b3
    unfolding en_def by simp
  have b5: "\<And>errs cs. try_block ''relative'' Relative (parseRelative rt) ctx
       (try_block ''time'' TimeOfDay (tryParseTime rt) ctx
       (try_block ''incomplete'' Incomplete (tryParseIncompleteDate rt) ctx
       (try_block ''ordinal'' Ordinal (tryParseOrdinalDate rt) ctx
       (try_block ''week'' Week (tryParseWeekNumber rt) ctx (no_parser_succeeded inp))))) errs cs
        = dispatch rt ctx (en [Relative, TimeOfDay, Incomplete, Ordinal, Week]) errs cs"
    using try_block_dispatch[of _ rt ctx "[TimeOfDay, Incomplete, Ordinal, Week]" Relative] b4
    unfolding en_def by simp
  have b6: "\<And>errs cs. try_block ''absolute'' Absolute (parseAbsolute rt) ctx
       (try_block ''relative'' Relative (parseRelative rt) ctx
       (try_block ''time'' TimeOfDay (tryParseTime rt) ctx
       (try_block ''incomplete'' Incomplete (tryParseIncompleteDate rt) ctx
       (try_block ''ordinal'' Ordinal (tryParseOrdinalDate rt) ctx
       (try_block ''week'' Week (tryParseWeekNumber rt) ctx (no_parser_succeeded inp)))))) errs cs
        = dispatch rt ctx (en [Absolute, Relative, TimeOfDay, Incomplete, Ordinal, Week]) errs cs"
    using try_block_dispatch[of _ rt ctx "[Relative, TimeOfDay, Incomplete, Ordinal, Week]" Absolute] b5
    unfolding en_def by simp
  have b7: "\<And>errs cs. try_block ''timestamp'' Timestamp (parseTimestamp rt) ctx
       (try_block ''absolute'' Absolute (parseAbsolute rt) ctx
       (try_block ''relative'' Relative (parseRelative rt) ctx
       (try_block ''time'' TimeOfDay (tryParseTime rt) ctx
       (try_block ''incomplete'' Incomplete (tryParseIncompleteDate rt) ctx
       (try_block ''ordinal'' Ordinal (tryParseOrdinalDate rt) ctx
       (try_block ''week'' Week (tryParseWeekNumber rt) ctx (no_parser_succeeded inp))))))) errs cs
        = dispatch rt ctx (en [Timestamp, Absolute, Relative, TimeOfDay, Incomplete, Ordinal, Week]) errs cs"
    using try_block_dispatch[of _ rt ctx "[Absolute, Relative, TimeOfDay, Incomplete, Ordinal, Week]" Timestamp] b6
    unfolding en_def by simp
  have "ParseDate_run rt inp opts0 =
      dispatch rt ctx (en [Timestamp, Absolute, Relative, TimeOfDay, Incomplete, Ordinal, Week]) [] []"
    using assms b7 by (simp add: ParseDate_run_def Let_def ctx_def)
  then show ?thesis
    by (simp add: en_def ctx_def enabled_parsers_def priority_order_def)
qed

lemma tried_Nil_iff [simp]: "tried rt ctx ps = [] \<longleftrightarrow> ps = []"
  by (cases ps) auto

lemma dispatch_calls:
  "snd (dispatch rt ctx ps errs cs) = cs @ map (\<lambda>p. (p, ctx)) (tried rt ctx ps)"
  by (induction ps arbitrary: errs cs)
     (auto simp: no_parser_succeeded_def split: sum.splits)

lemma dispatch_result:
  "fst (dispatch rt ctx ps errs cs) =
     (if list_all (\<lambda>p. fails_generically (run_parser rt p ctx)) ps
      then Inl (newInvalidFormatError (input ctx))
      else run_parser rt (last (tried rt ctx ps)) ctx)"
  by (induction ps arbitrary: errs cs)
     (auto simp: no_parser_succeeded_def split: sum.splits)

lemma tried_prefix: "prefix (tried rt ctx ps) ps"
  by (induction ps) auto

lemma tried_all:
  "list_all (\<lambda>p. fails_generically (run_parser rt p ctx)) ps \<Longrightarrow> tried rt ctx ps = ps"
  by (induction ps) auto

lemma tried_butlast:
  "Suc i < length (tried rt ctx ps) \<Longrightarrow> fails_generically (run_parser rt (tried rt ctx ps ! i) ctx)"
proof (induction ps arbitrary: i)
  case Nil
  then show ?case by simp
next
  case (Cons p ps)
  then show ?case by (cases i) (auto split: if_splits)
qed

lemma tried_stop:
  "tried rt ctx ps \<noteq> ps \<Longrightarrow>
     tried rt ctx ps \<noteq> [] \<and> \<not> fails_generically (run_parser rt (last (tried rt ctx ps)) ctx)"
  by (induction ps) (auto split: if_splits)

lemma tried_first:
  "k < length ps \<Longrightarrow> \<not> fails_generically (run_parser rt (ps ! k) ctx) \<Longrightarrow>
   (\<And>j. j < k \<Longrightarrow> fails_generically (run_parser rt (ps ! j) ctx)) \<Longrightarrow>
   tried rt ctx ps = take (Suc k) ps"
proof (induction ps arbitrary: k)
  case Nil
  then show ?case by simp
next
  case (Cons p ps)
  show ?case
  proof (cases k)
    case 0
    with Cons.prems show ?thesis by simp
  next
    case (Suc k')
    have "fails_generically (run_parser rt p ctx)"
      using Cons.prems(3)[of 0] Suc by simp
    moreover have "tried rt ctx ps = take (Suc k') ps"
    proof (rule Cons.IH)
      show "k' < length ps" using Cons.prems(1) Suc by simp
      show "\<not> fails_generically (run_parser rt (ps ! k') ctx)" using Cons.prems(2) Suc by simp
      fix j assume "j < k'"
      then show "fails_generically (run_parser rt (ps ! j) ctx)"
        using Cons.prems(3)[of "Suc j"] Suc by simp
    qed
    ultimately show ?thesis using Suc by simp
  qed
qed


lemma ParseDate_calls_tried:
  assumes "inp \<noteq> []"
  shows "ParseDate_calls rt inp opts0 =
         tried rt (make_context rt inp opts0) (enabled_parsers (settings (make_context rt inp opts0)))"
  using assms by (simp add: ParseDate_calls_def ParseDate_run_dispatch dispatch_calls comp_def)

lemma ParseDate_result:
  assumes "inp \<noteq> []"
  shows "ParseDate rt inp opts0 =
     (if list_all (\<lambda>p. fails_generically (run_parser rt p (make_context rt inp opts0)))
           (enabled_parsers (settings (make_context rt inp opts0)))
      then Inl (newInvalidFormatError inp)
      else run_parser rt (last (ParseDate_calls rt inp opts0)) (make_context rt inp opts0))"
proof -
  have "input (make_context rt inp opts0) = inp"
    by (simp add: make_context_def Let_def)
  then show ?thesis
    using assms by (simp add: ParseDate_def ParseDate_run_dispatch dispatch_result ParseDate_calls_tried)
qed

lemma enabled_parsers_set:
  "p \<in> set (enabled_parsers s) \<longleftrightarrow> isParserEnabled s (parser_name p)"
proof -
  have "p \<in> set priority_order"
    by (cases p) (simp_all add: priority_order_def)
  then show ?thesis by (simp add: enabled_parsers_def)
qed

section \<open>Facts about the concrete runs\<close>

lemma ex_en: "enabled_parsers (normalizeSettings now DefaultSettings) = priority_order"
  by (simp add: enabled_parsers_def priority_order_def isParserEnabled_mem normalizeSettings_fields DefaultSettings_def)

lemma ex_iso: "isoCalendar ''2024-12-31'' = Some (2024, 12, 31)"
  by (simp add: isoCalendar_def allDigits_def isDigit_def number_def digitVal_def)

lemma trim_ex: "trimSpace ''2024-12-31'' = ''2024-12-31''"
  by (simp add: trimSpace_def isSpace_def)

section \<open>Dispatch order\<close>

text \<open>
  Claim C1.  For a non-empty input and any settings, \<open>ParseDate\<close> calls the enabled strategy
  parsers in the fixed order timestamp, absolute, relative, time, incomplete, ordinal,
  week, skipping those whose name is not in \<open>EnableParsers\<close>: the parsers called are an
  initial part of the enabled ones in that order; every parser called before the last
  one failed generically; the calls stop before the end of the list only at a parser
  that did not fail generically; the result of the first parser that succeeds (every
  enabled parser before it having failed generically) is returned and no later parser
  is called; and a returned timestamp is always the result of the last parser called.
\<close>

theorem ParseDate_priority_order:
  assumes "inp \<noteq> []"
  shows "let ctx = make_context rt inp opts0;
             en = enabled_parsers (settings ctx);
             calls = ParseDate_calls rt inp opts0
         in prefix calls en
          \<and> (\<forall>p \<in> set calls. isParserEnabled (settings ctx) (parser_name p))
          \<and> (\<forall>i. Suc i < length calls \<longrightarrow> fails_generically (run_parser rt (calls ! i) ctx))
          \<and> (calls \<noteq> en \<longrightarrow> calls \<noteq> [] \<and> \<not> fails_generically (run_parser rt (last calls) ctx))
          \<and> (\<forall>k t. k < length en \<and> run_parser rt (en ! k) ctx = Inr t
                   \<and> (\<forall>j<k. fails_generically (run_parser rt (en ! j) ctx))
                \<longrightarrow> ParseDate rt inp opts0 = Inr t \<and> calls = take (Suc k) en)
          \<and> (\<forall>t. ParseDate rt inp opts0 = Inr t
                \<longrightarrow> calls \<noteq> [] \<and> run_parser rt (last calls) ctx = Inr t)"
proof -
  define ctx where "ctx = make_context rt inp opts0"
  define en where "en = enabled_parsers (settings ctx)"
  define calls where "calls = ParseDate_calls rt inp opts0"
  have calls: "calls = tried rt ctx en"
    using assms by (simp add: calls_def ctx_def en_def ParseDate_calls_tried)
  have res: "ParseDate rt inp opts0 =
     (if list_all (\<lambda>p. fails_generically (run_parser rt p ctx)) en
      then Inl (newInvalidFormatError inp) else run_parser rt (last calls) ctx)"
    using assms ParseDate_result[of inp rt opts0] by (simp add: calls_def ctx_def en_def)
  have c1: "prefix calls en"
    by (simp add: calls tried_prefix)
  have c2: "\<forall>p \<in> set calls. isParserEnabled (settings ctx) (parser_name p)"
  proof
    fix p assume "p \<in> set calls"
    then have "p \<in> set en" using c1 set_mono_prefix by blast
    then show "isParserEnabled (settings ctx) (parser_name p)"
      by (simp add: en_def enabled_parsers_set)
  qed
  have c3: "\<forall>i. Suc i < length calls \<longrightarrow> fails_generically (run_parser rt (calls ! i) ctx)"
    by (simp add: calls tried_butlast)
  have c4: "calls \<noteq> en \<longrightarrow> calls \<noteq> [] \<and> \<not> fails_generically (run_parser rt (last calls) ctx)"
    unfolding calls using tried_stop by blast
  have c5: "\<forall>k t. k < length en \<and> run_parser rt (en ! k) ctx = Inr t
                   \<and> (\<forall>j<k. fails_generically (run_parser rt (en ! j) ctx))
                \<longrightarrow> ParseDate rt inp opts0 = Inr t \<and> calls = take (Suc k) en"
  proof (intro allI impI)
    fix k t
    assume h: "k < length en \<and> run_parser rt (en ! k) ctx = Inr t
                   \<and> (\<forall>j<k. fails_generically (run_parser rt (en ! j) ctx))"
    then have nf: "\<not> fails_generically (run_parser rt (en ! k) ctx)" by simp
    have tk: "calls = take (Suc k) en"
      unfolding calls using h nf by (intro tried_first) auto
    have "en ! k \<in> set en" using h by simp
    then have notall: "\<not> list_all (\<lambda>p. fails_generically (run_parser rt p ctx)) en"
      using nf by (auto simp: list_all_iff)
    have "last calls = en ! k"
      using h by (simp add: tk take_Suc_conv_app_nth)
    then show "ParseDate rt inp opts0 = Inr t \<and> calls = take (Suc k) en"
      using res notall h tk by simp
  qed
  have c6: "\<forall>t. ParseDate rt inp opts0 = Inr t
                \<longrightarrow> calls \<noteq> [] \<and> run_parser rt (last calls) ctx = Inr t"
  proof (intro allI impI)
    fix t assume r: "ParseDate rt inp opts0 = Inr t"
    then have notall: "\<not> list_all (\<lambda>p. fails_generically (run_parser rt p ctx)) en"
      using res by (auto split: if_splits)
    then have "en \<noteq> []" by auto
    then have "calls \<noteq> []" by (simp add: calls)
    moreover have "run_parser rt (last calls) ctx = Inr t"
      using res r notall by simp
    ultimately show "calls \<noteq> [] \<and> run_parser rt (last calls) ctx = Inr t" by simp
  qed
  show ?thesis
    unfolding Let_def
    using c1 c2 c3 c4 c5 c6 unfolding calls_def en_def ctx_def by blast
qed

theorem ParseDate_priority_order_witness:
  "''2024-12-31'' \<noteq> []
   \<and> ParseDate (example_runtime noon_2024_10_02 :: unit runtime) ''2024-12-31'' None
       = Inr (goDate 2024 12 31 0 0 0 0 UTC)
   \<and> ParseDate_calls (example_runtime noon_2024_10_02 :: unit runtime) ''2024-12-31'' None
       = [Timestamp, Absolute]"
proof -
  let ?rt = "example_runtime noon_2024_10_02 :: unit runtime"
  let ?ctx = "make_context ?rt ''2024-12-31'' None"
  have en: "enabled_parsers (settings ?ctx) = priority_order"
    by (simp add: make_context_fields ex_en)
  have ts: "fails_generically (run_parser ?rt Timestamp ?ctx)"
    by (simp add: example_runtime_def no_match_def)
  have ab: "run_parser ?rt Absolute ?ctx = Inr (goDate 2024 12 31 0 0 0 0 UTC)"
    by (simp add: example_runtime_def parseAbsolute_numeric_def make_context_fields trim_ex ex_iso
        assemble_def validDate_def daysInMonth_def default_zone_def normalizeSettings_fields
        DefaultSettings_def)
  have "\<forall>j<1. fails_generically (run_parser ?rt (priority_order ! j) ?ctx)"
    using ts by (simp add: priority_order_def)
  then show ?thesis
    using ParseDate_priority_order[of "''2024-12-31''" ?rt None] en ab
    by (auto simp: Let_def priority_order_def dest!: spec[where x = 1])
qed

section \<open>More facts about single blocks and concrete runs\<close>

lemma noon_value: "noon_2024_10_02 = \<lparr>sec = 63863467200, nsec = 0, loc = UTC\<rparr>"
  by code_simp

lemma ParseDate_run_contexts:
  assumes "c \<in> set (snd (ParseDate_run rt inp opts0))"
  shows "snd c = make_context rt inp opts0"
proof (cases "inp = []")
  case True
  with assms show ?thesis by (simp add: ParseDate_run_def)
next
  case False
  with assms show ?thesis
    by (auto simp: ParseDate_run_dispatch dispatch_calls)
qed

lemma try_block_disabled:
  "\<not> isParserEnabled (settings ctx) name \<Longrightarrow>
   try_block name pid parse ctx rest errs cs = rest errs cs"
  by (simp add: try_block_def)

lemma try_block_generic:
  "isParserEnabled (settings ctx) name \<Longrightarrow> fails_generically (parse ctx) \<Longrightarrow>
   try_block name pid parse ctx rest errs cs =
     rest (errs @ [projl (parse ctx)]) (cs @ [(pid, ctx)])"
  by (cases "parse ctx") (simp_all add: try_block_def)

lemma try_block_decides:
  "isParserEnabled (settings ctx) name \<Longrightarrow> \<not> fails_generically (parse ctx) \<Longrightarrow>
   try_block name pid parse ctx rest errs cs = (parse ctx, cs @ [(pid, ctx)])"
  by (cases "parse ctx") (simp_all add: try_block_def)

lemma ParseDate_absolute_decides:
  assumes "inp \<noteq> []"
    and "isParserEnabled (settings (make_context rt inp opts0)) ''absolute''"
    and "isParserEnabled (settings (make_context rt inp opts0)) ''timestamp'' \<longrightarrow>
         fails_generically (parseTimestamp rt (make_context rt inp opts0))"
    and "\<not> fails_generically (parseAbsolute rt (make_context rt inp opts0))"
  shows "ParseDate rt inp opts0 = parseAbsolute rt (make_context rt inp opts0)"
    and "ParseDate_calls rt inp opts0 =
         (if isParserEnabled (settings (make_context rt inp opts0)) ''timestamp''
          then [Timestamp, Absolute] else [Absolute])"
proof -
  define ctx where "ctx = make_context rt inp opts0"
  define rest where "rest =
       try_block ''relative'' Relative (parseRelative rt) ctx
       (try_block ''time'' TimeOfDay (tryParseTime rt) ctx
       (try_block ''incomplete'' Incomplete (tryParseIncompleteDate rt) ctx
       (try_block ''ordinal'' Ordinal (tryParseOrdinalDate rt) ctx
       (try_block ''week'' Week (tryParseWeekNumber rt) ctx
       (no_parser_succeeded inp)))))"
  have run: "ParseDate_run rt inp opts0 =
     try_block ''timestamp'' Timestamp (parseTimestamp rt) ctx
       (try_block ''absolute'' Absolute (parseAbsolute rt) ctx rest) [] []"
    using assms(1) by (simp add: ParseDate_run_def Let_def ctx_def rest_def)
  have ab: "\<And>errs cs. try_block ''absolute'' Absolute (parseAbsolute rt) ctx rest errs cs =
      (parseAbsolute rt ctx, cs @ [(Absolute, ctx)])"
    using assms(2,4) unfolding ctx_def[symmetric] by (simp add: try_block_decides)
  have ts: "try_block ''timestamp'' Timestamp (parseTimestamp rt) ctx
       (try_block ''absolute'' Absolute (parseAbsolute rt) ctx rest) [] [] =
     (parseAbsolute rt ctx,
      if isParserEnabled (settings ctx) ''timestamp''
      then [(Timestamp, ctx), (Absolute, ctx)] else [(Absolute, ctx)])"
  proof (cases "isParserEnabled (settings ctx) ''timestamp''")
    case True
    then have "fails_generically (parseTimestamp rt ctx)"
      using assms(3) unfolding ctx_def[symmetric] by simp
    then show ?thesis using True by (simp add: try_block_generic ab)
  next
    case False
    then show ?thesis by (simp add: try_block_disabled ab)
  qed
  show "ParseDate rt inp opts0 = parseAbsolute rt (make_context rt inp opts0)"
    unfolding ParseDate_def run ts by (simp add: ctx_def)
  show "ParseDate_calls rt inp opts0 =
         (if isParserEnabled (settings (make_context rt inp opts0)) ''timestamp''
          then [Timestamp, Absolute] else [Absolute])"
    unfolding ParseDate_calls_def run ts by (simp add: ctx_def)
qed

lemma Settings_eqI:
  fixes a b :: Settings
  assumes "DateOrder a = DateOrder b" "Languages a = Languages b" "RelativeBase a = RelativeBase b"
    "EnableParsers a = EnableParsers b" "Strict a = Strict b"
    "PreferredTimezone a = PreferredTimezone b" "PreferDatesFrom a = PreferDatesFrom b"
  shows "a = b"
  using assms by (cases a, cases b) simp

lemma example_runtime_fields:
  "clock_now (example_runtime now) = now"
  "parseTimestamp (example_runtime now) = no_match"
  "parseAbsolute (example_runtime now) = parseAbsolute_numeric no_match"
  "parseRelative (example_runtime now) = base_instant"
  by (simp_all add: example_runtime_def)

lemma no_match_generic: "fails_generically (no_match ctx)"
  by (simp add: no_match_def)

lemma absolute_enabled_by_default:
  "EnableParsers opts = [] \<Longrightarrow> isParserEnabled (normalizeSettings now opts) ''absolute''"
  "EnableParsers opts = [] \<Longrightarrow> isParserEnabled (normalizeSettings now opts) ''timestamp''"
  by (simp_all add: isParserEnabled_mem normalizeSettings_fields)

lemma parseAbsolute_numeric_iso:
  assumes "isoCalendar (trimSpace (input ctx)) = Some (y, m, d)"
  shows "parseAbsolute_numeric other ctx = assemble ctx y m d"
  using assms by (simp add: parseAbsolute_numeric_def)

lemma assemble_total: "\<not> fails_generically (assemble ctx y m d)"
  by (simp add: assemble_def)

section \<open>Normalisation of the settings\<close>

text \<open>
  Claim C7.  \<open>normalizeSettings\<close> gives each unset field its default: an empty
  \<open>DateOrder\<close> becomes \<open>MDY\<close>, empty \<open>Languages\<close> become \<open>[en]\<close>, a zero \<open>RelativeBase\<close>
  becomes the current time, empty \<open>EnableParsers\<close> become the full list, a nil
  \<open>PreferredTimezone\<close> becomes UTC and an empty \<open>PreferDatesFrom\<close> becomes \<open>future\<close>;
  every field that was supplied, and \<open>Strict\<close>, is unchanged.  The snapshot is not
  modified afterwards: every strategy parser that \<open>ParseDate\<close> calls is given a context
  holding exactly the normalised settings (of the caller's settings, or of
  \<open>DefaultSettings\<close> for a nil pointer).
\<close>

theorem normalizeSettings_defaults:
  "DateOrder (normalizeSettings now opts) = (if DateOrder opts = [] then ''MDY'' else DateOrder opts)
   \<and> Languages (normalizeSettings now opts) = (if Languages opts = [] then [''en''] else Languages opts)
   \<and> RelativeBase (normalizeSettings now opts) =
       (if IsZero (RelativeBase opts) then now else RelativeBase opts)
   \<and> EnableParsers (normalizeSettings now opts) =
       (if EnableParsers opts = []
        then [''timestamp'', ''relative'', ''absolute'', ''timezone'', ''time'', ''incomplete'',
              ''ordinal'', ''week'']
        else EnableParsers opts)
   \<and> PreferredTimezone (normalizeSettings now opts) =
       (if PreferredTimezone opts = None then Some UTC else PreferredTimezone opts)
   \<and> PreferDatesFrom (normalizeSettings now opts) =
       (if PreferDatesFrom opts = [] then ''future'' else PreferDatesFrom opts)
   \<and> Strict (normalizeSettings now opts) = Strict opts
   \<and> (\<forall>c \<in> set (snd (ParseDate_run rt inp (Some opts))).
         settings (snd c) = normalizeSettings (clock_now rt) opts)
   \<and> (\<forall>c \<in> set (snd (ParseDate_run rt inp None)).
         settings (snd c) = normalizeSettings (clock_now rt) DefaultSettings)"
  using ParseDate_run_contexts[of _ rt inp "Some opts"] ParseDate_run_contexts[of _ rt inp None]
  by (simp add: normalizeSettings_fields make_context_fields)

theorem normalizeSettings_defaults_witness:
  "normalizeSettings noon_2024_10_02 unset_settings
     = DefaultSettings\<lparr>RelativeBase := noon_2024_10_02, Strict := True\<rparr>
   \<and> normalizeSettings noon_2024_10_02
       (DefaultSettings\<lparr>DateOrder := ''DMY'', RelativeBase := noon_2024_10_02\<rparr>)
     = DefaultSettings\<lparr>DateOrder := ''DMY'', RelativeBase := noon_2024_10_02\<rparr>
   \<and> map (\<lambda>c. settings (snd c))
        (snd (ParseDate_run (example_runtime noon_2024_10_02 :: unit runtime) ''2024-12-31''
               (Some unset_settings)))
     = [DefaultSettings\<lparr>RelativeBase := noon_2024_10_02, Strict := True\<rparr>,
        DefaultSettings\<lparr>RelativeBase := noon_2024_10_02, Strict := True\<rparr>]"
proof -
  let ?rt = "example_runtime noon_2024_10_02 :: unit runtime"
  let ?S = "DefaultSettings\<lparr>RelativeBase := noon_2024_10_02, Strict := True\<rparr>"
  note inst = normalizeSettings_defaults[of noon_2024_10_02 _ ?rt "''2024-12-31''"]
  have nz: "\<not> IsZero noon_2024_10_02"
    by (simp add: IsZero_def noon_value)
  have a: "normalizeSettings noon_2024_10_02 unset_settings = ?S"
    using inst[of unset_settings]
    by (intro Settings_eqI) (simp_all add: unset_settings_def DefaultSettings_def IsZero_def zero_time_def)
  have b: "normalizeSettings noon_2024_10_02
       (DefaultSettings\<lparr>DateOrder := ''DMY'', RelativeBase := noon_2024_10_02\<rparr>)
     = DefaultSettings\<lparr>DateOrder := ''DMY'', RelativeBase := noon_2024_10_02\<rparr>"
    using inst[of "DefaultSettings\<lparr>DateOrder := ''DMY'', RelativeBase := noon_2024_10_02\<rparr>"] nz
    by (intro Settings_eqI) (simp_all add: DefaultSettings_def)
  let ?ctx = "make_context ?rt ''2024-12-31'' (Some unset_settings)"
  have "parseAbsolute ?rt ?ctx = assemble ?ctx 2024 12 31"
    by (simp add: example_runtime_fields parseAbsolute_numeric_iso make_context_fields trim_ex ex_iso)
  then have "ParseDate_calls ?rt ''2024-12-31'' (Some unset_settings) = [Timestamp, Absolute]"
    by (subst ParseDate_absolute_decides(2))
       (simp_all add: make_context_fields absolute_enabled_by_default unset_settings_def
          example_runtime_fields no_match_generic assemble_total)
  then have "length (snd (ParseDate_run ?rt ''2024-12-31'' (Some unset_settings))) = 2"
    by (simp add: ParseDate_calls_def flip: length_map[of fst])
  then obtain c1 c2 where cs: "snd (ParseDate_run ?rt ''2024-12-31'' (Some unset_settings)) = [c1, c2]"
    by (auto simp: length_Suc_conv numeral_2_eq_2)
  have c: "map (\<lambda>c. settings (snd c)) (snd (ParseDate_run ?rt ''2024-12-31'' (Some unset_settings)))
      = [?S, ?S]"
    using inst[of unset_settings] a by (simp add: cs example_runtime_fields)
  show ?thesis using a b c by simp
qed

section \<open>Facts about the overlap resolution\<close>

lemma ranks_before_total: "ranks_before a b \<or> ranks_before b a"
  by (auto simp: ranks_before_def)

lemma ranks_before_trans: "ranks_before a b \<Longrightarrow> ranks_before b c \<Longrightarrow> ranks_before a c"
  by (auto simp: ranks_before_def)

lemma set_insert_ranked: "set (insert_ranked c xs) = insert c (set xs)"
  by (induction xs) auto

lemma sorted_insert_ranked:
  "sorted_wrt ranks_before xs \<Longrightarrow> sorted_wrt ranks_before (insert_ranked c xs)"
proof (induction xs)
  case Nil
  then show ?case by simp
next
  case (Cons x xs)
  show ?case
  proof (cases "ranks_before c x")
    case True
    then have "\<forall>y \<in> set xs. ranks_before c y"
      using Cons.prems ranks_before_trans by auto
    then show ?thesis using True Cons.prems by simp
  next
    case False
    then have "ranks_before x c" using ranks_before_total by blast
    then show ?thesis using False Cons by (auto simp: set_insert_ranked)
  qed
qed

lemma rank_sort_sorted: "sorted_wrt ranks_before (rank_sort cs)"
  by (induction cs) (simp_all add: rank_sort_def sorted_insert_ranked)

lemma rank_sort_set: "set (rank_sort cs) = set cs"
  by (induction cs) (simp_all add: rank_sort_def set_insert_ranked)

lemma accept_greedy_subset: "set (accept_greedy accepted cs) \<subseteq> set accepted \<union> set cs"
proof (induction cs arbitrary: accepted)
  case Nil
  then show ?case by simp
next
  case (Cons c cs)
  show ?case
    using Cons.IH[of accepted] Cons.IH[of "accepted @ [c]"] by auto
qed






lemma ExtractDates_nonempty:
  "txt \<noteq> [] \<Longrightarrow>
   ExtractDates rt txt opts0 =
     Inr (sort_key Position (accept_greedy []
       (rank_sort (concat (map (candidate_of rt (make_context rt txt opts0))
          (scan rt (make_context rt txt opts0)))))))"
  by (simp add: ExtractDates_def ExtractDates_run_def extractAllDates_def Let_def)



lemma ExtractDates_total:
  "txt \<noteq> [] \<Longrightarrow> \<exists>ms. ExtractDates rt txt opts0 = Inr ms"
  by (simp add: ExtractDates_nonempty)

lemma example_all_fail:
  assumes "isoCalendar (trimSpace inp) = None" "yearLast (trimSpace inp) = None"
    "trimSpace inp \<noteq> ''now''" "input ctx = inp"
  shows "fails_generically (run_parser (example_runtime now) p ctx)"
  using assms
  by (cases p)
     (simp_all add: example_runtime_def no_match_def base_instant_def parseAbsolute_numeric_def)

lemma hello_facts:
  "isoCalendar (trimSpace ''hello'') = None"
  "yearLast (trimSpace ''hello'') = None"
  "trimSpace ''hello'' \<noteq> ''now''"
  by (simp_all add: trimSpace_def isSpace_def isoCalendar_def yearLast_def yearLastWith_def)

section \<open>Extraction results\<close>



section \<open>Empty input and unrecognised input\<close>

text \<open>
  Claim C6.  On the empty string \<open>ParseDate\<close> and \<open>ExtractDates\<close> return the empty-input
  failure and no strategy parser has been called or attempted.  On a non-empty input
  on which every enabled parser fails generically, \<open>ParseDate\<close> returns the
  invalid-format failure (after calling all of them).  \<open>ExtractDates\<close> returns a failure
  only for the empty text, and then the empty-input failure; on any other text it
  returns a list of matches.
\<close>

theorem empty_input_and_no_match:
  "ParseDate_run rt [] opts0 = (Inl ErrEmptyInput, [])
   \<and> ExtractDates_run rt [] opts0 = (Inl ErrEmptyInput, [])
   \<and> (inp \<noteq> []
        \<and> (\<forall>p \<in> set (enabled_parsers (settings (make_context rt inp opts0))).
              fails_generically (run_parser rt p (make_context rt inp opts0)))
      \<longrightarrow> ParseDate rt inp opts0 = Inl (newInvalidFormatError inp)
        \<and> ParseDate_calls rt inp opts0 = enabled_parsers (settings (make_context rt inp opts0)))
   \<and> (\<forall>e. ExtractDates rt txt opts0 = Inl e \<longrightarrow> txt = [] \<and> e = ErrEmptyInput)
   \<and> (txt \<noteq> [] \<longrightarrow> (\<exists>ms. ExtractDates rt txt opts0 = Inr ms))"
proof -
  have a: "ParseDate_run rt [] opts0 = (Inl ErrEmptyInput, [])"
    by (simp add: ParseDate_run_def)
  have b: "ExtractDates_run rt [] opts0 = (Inl ErrEmptyInput, [])"
    by (simp add: ExtractDates_run_def)
  have c: "ParseDate rt inp opts0 = Inl (newInvalidFormatError inp)
        \<and> ParseDate_calls rt inp opts0 = enabled_parsers (settings (make_context rt inp opts0))"
    if "inp \<noteq> []" and "\<forall>p \<in> set (enabled_parsers (settings (make_context rt inp opts0))).
              fails_generically (run_parser rt p (make_context rt inp opts0))"
  proof -
    have all: "list_all (\<lambda>p. fails_generically (run_parser rt p (make_context rt inp opts0)))
        (enabled_parsers (settings (make_context rt inp opts0)))"
      using that(2) by (simp add: list_all_iff)
    show ?thesis
      using that(1) all by (simp add: ParseDate_result ParseDate_calls_tried tried_all)
  qed
  have d: "txt = [] \<and> e = ErrEmptyInput" if "ExtractDates rt txt opts0 = Inl e" for e
  proof (cases "txt = []")
    case True
    then show ?thesis using that by (simp add: ExtractDates_def ExtractDates_run_def)
  next
    case False
    then show ?thesis using that ExtractDates_total[of "txt" rt opts0] by simp
  qed
  show ?thesis
    using a b c d ExtractDates_total by blast
qed

theorem empty_input_and_no_match_witness:
  "ParseDate_run (example_runtime noon_2024_10_02 :: unit runtime) [] None = (Inl ErrEmptyInput, [])
   \<and> ExtractDates_run (example_runtime noon_2024_10_02 :: unit runtime) [] None = (Inl ErrEmptyInput, [])
   \<and> ParseDate (example_runtime noon_2024_10_02 :: unit runtime) ''hello'' None
       = Inl (ErrInvalidFormat ''hello'')
   \<and> ParseDate_calls (example_runtime noon_2024_10_02 :: unit runtime) ''hello'' None
       = [Timestamp, Absolute, Relative, TimeOfDay, Incomplete, Ordinal, Week]
   \<and> ExtractDates (example_runtime noon_2024_10_02 :: unit runtime) ''hello'' None = Inr []"
proof -
  let ?rt = "example_runtime noon_2024_10_02 :: unit runtime"
  note inst = empty_input_and_no_match[of ?rt None "''hello''" "''hello''"]
  have fail: "\<forall>p \<in> set (enabled_parsers (settings (make_context ?rt ''hello'' None))).
      fails_generically (run_parser ?rt p (make_context ?rt ''hello'' None))"
    by (intro ballI example_all_fail[of "''hello''"]) (simp_all add: hello_facts make_context_fields)
  have en: "enabled_parsers (settings (make_context ?rt ''hello'' None)) = priority_order"
    by (simp add: make_context_fields ex_en)
  have ex: "ExtractDates ?rt ''hello'' None = Inr []"
    by code_simp
  show ?thesis
    using inst fail en ex by (simp add: newInvalidFormatError_def priority_order_def)
qed

section \<open>Facts about the first decisive parser\<close>

lemma tried_next:
  "Suc k < length ps \<Longrightarrow> (\<And>j. j \<le> k \<Longrightarrow> fails_generically (run_parser rt (ps ! j) ctx)) \<Longrightarrow>
   Suc k < length (tried rt ctx ps) \<and> tried rt ctx ps ! Suc k = ps ! Suc k"
proof (induction ps arbitrary: k)
  case Nil
  then show ?case by simp
next
  case (Cons p ps)
  have p: "fails_generically (run_parser rt p ctx)"
    using Cons.prems(2)[of 0] by simp
  show ?case
  proof (cases k)
    case 0
    then obtain q qs where "ps = q # qs"
      using Cons.prems(1) by (cases ps) auto
    then show ?thesis using p 0 by simp
  next
    case (Suc k')
    have "Suc k' < length (tried rt ctx ps) \<and> tried rt ctx ps ! Suc k' = ps ! Suc k'"
    proof (rule Cons.IH)
      show "Suc k' < length ps" using Cons.prems(1) Suc by simp
      fix j assume "j \<le> k'"
      then show "fails_generically (run_parser rt (ps ! j) ctx)"
        using Cons.prems(2)[of "Suc j"] Suc by simp
    qed
    then show ?thesis using p Suc by simp
  qed
qed

lemma ParseDate_first_decisive:
  assumes "inp \<noteq> []"
    and "k < length (enabled_parsers (settings (make_context rt inp opts0)))"
    and "\<not> fails_generically
           (run_parser rt (enabled_parsers (settings (make_context rt inp opts0)) ! k)
              (make_context rt inp opts0))"
    and "\<And>j. j < k \<Longrightarrow> fails_generically
           (run_parser rt (enabled_parsers (settings (make_context rt inp opts0)) ! j)
              (make_context rt inp opts0))"
  shows "ParseDate rt inp opts0 =
           run_parser rt (enabled_parsers (settings (make_context rt inp opts0)) ! k)
              (make_context rt inp opts0)"
    and "ParseDate_calls rt inp opts0 =
           take (Suc k) (enabled_parsers (settings (make_context rt inp opts0)))"
proof -
  define ctx where "ctx = make_context rt inp opts0"
  define en where "en = enabled_parsers (settings ctx)"
  have calls: "ParseDate_calls rt inp opts0 = take (Suc k) en"
    using assms unfolding ctx_def[symmetric] en_def[symmetric]
    by (simp add: ParseDate_calls_tried ctx_def[symmetric] en_def[symmetric] tried_first)
  have "en ! k \<in> set en" using assms(2) by (simp add: en_def ctx_def)
  then have notall: "\<not> list_all (\<lambda>p. fails_generically (run_parser rt p ctx)) en"
    using assms(3) by (auto simp: list_all_iff en_def ctx_def)
  have "last (take (Suc k) en) = en ! k"
    using assms(2) by (simp add: take_Suc_conv_app_nth en_def ctx_def)
  then have "ParseDate rt inp opts0 = run_parser rt (en ! k) ctx"
    using assms(1) notall calls
    by (simp add: ParseDate_result ctx_def[symmetric] en_def[symmetric])
  then show "ParseDate rt inp opts0 =
           run_parser rt (enabled_parsers (settings (make_context rt inp opts0)) ! k)
              (make_context rt inp opts0)"
    by (simp add: en_def ctx_def)
  show "ParseDate_calls rt inp opts0 =
           take (Suc k) (enabled_parsers (settings (make_context rt inp opts0)))"
    using calls by (simp add: en_def ctx_def)
qed

lemma raises_fields:
  "parseTimestamp (rt\<lparr>parseTimestamp := f\<rparr>) = f"
  "parseAbsolute (rt\<lparr>parseTimestamp := f\<rparr>) = parseAbsolute rt"
  "clock_now (rt\<lparr>parseTimestamp := f\<rparr>) = clock_now rt"
  by simp_all

lemma bad_month_iso: "isoCalendar (trimSpace ''2024-13-01'') = Some (2024, 13, 1)"
  by (simp add: trimSpace_def isSpace_def isoCalendar_def allDigits_def isDigit_def number_def digitVal_def)

section \<open>Specific and generic failures\<close>

text \<open>
  Claim C2, as the code has it.  \<open>isSpecificError\<close> recognises the invalid-date and the
  ambiguous-date failure (also wrapped), and nothing else: not the empty-input failure,
  which \<open>ParseDate\<close> raises itself before any parser runs.  When the first enabled parser
  that does not fail generically raises a specific failure, \<open>ParseDate\<close> returns exactly
  that failure and calls no later parser.  A failure that is not specific is swallowed:
  while the enabled parsers fail generically the next enabled one is called.  So when
  that first parser raises an invalid-date failure, the caller gets the invalid-date
  failure and not the invalid-format failure.
\<close>

theorem specific_failures_short_circuit:
  assumes "inp \<noteq> []"
  shows "let ctx = make_context rt inp opts0;
             en = enabled_parsers (settings ctx);
             calls = ParseDate_calls rt inp opts0
         in (\<forall>k e. k < length en \<and> run_parser rt (en ! k) ctx = Inl e \<and> isSpecificError e
                   \<and> (\<forall>j<k. fails_generically (run_parser rt (en ! j) ctx))
                \<longrightarrow> ParseDate rt inp opts0 = Inl e \<and> calls = take (Suc k) en)
          \<and> (\<forall>k. Suc k < length en \<and> (\<forall>j\<le>k. fails_generically (run_parser rt (en ! j) ctx))
                \<longrightarrow> Suc k < length calls \<and> calls ! Suc k = en ! Suc k)
          \<and> (\<forall>k m. k < length en \<and> run_parser rt (en ! k) ctx = Inl (ErrInvalidDate m)
                   \<and> (\<forall>j<k. fails_generically (run_parser rt (en ! j) ctx))
                \<longrightarrow> ParseDate rt inp opts0 = Inl (ErrInvalidDate m)
                  \<and> ParseDate rt inp opts0 \<noteq> Inl (newInvalidFormatError inp))
          \<and> (\<forall>m. isSpecificError (ErrInvalidDate m) \<and> isSpecificError (ErrAmbiguousDate m)
                 \<and> \<not> isSpecificError (ErrInvalidFormat m) \<and> \<not> isSpecificError (ErrParseFailure m)
                 \<and> \<not> isSpecificError (OtherError m))
          \<and> \<not> isSpecificError ErrEmptyInput
          \<and> (\<forall>m e. isSpecificError (Wrapped m e) = isSpecificError e)"
proof -
  define ctx where "ctx = make_context rt inp opts0"
  define en where "en = enabled_parsers (settings ctx)"
  define calls where "calls = ParseDate_calls rt inp opts0"
  have a: "ParseDate rt inp opts0 = Inl e \<and> calls = take (Suc k) en"
    if "k < length en" "run_parser rt (en ! k) ctx = Inl e" "isSpecificError e"
      "\<forall>j<k. fails_generically (run_parser rt (en ! j) ctx)" for k e
    using ParseDate_first_decisive[of inp k rt opts0] assms that
    by (simp add: ctx_def en_def calls_def)
  have b: "Suc k < length calls \<and> calls ! Suc k = en ! Suc k"
    if "Suc k < length en" "\<forall>j\<le>k. fails_generically (run_parser rt (en ! j) ctx)" for k
    using tried_next[of k en rt ctx] that assms
    by (simp add: calls_def ParseDate_calls_tried ctx_def en_def)
  have c: "ParseDate rt inp opts0 = Inl (ErrInvalidDate m)
         \<and> ParseDate rt inp opts0 \<noteq> Inl (newInvalidFormatError inp)"
    if "k < length en" "run_parser rt (en ! k) ctx = Inl (ErrInvalidDate m)"
      "\<forall>j<k. fails_generically (run_parser rt (en ! j) ctx)" for k m
    using a[of k "ErrInvalidDate m"] that by (simp add: newInvalidFormatError_def)
  show ?thesis
    unfolding Let_def ctx_def[symmetric] en_def[symmetric] calls_def[symmetric]
    using a b c by auto
qed

theorem specific_failures_short_circuit_witness:
  "ParseDate (example_runtime noon_2024_10_02 :: unit runtime) ''2024-13-01'' None
     = Inl (ErrInvalidDate ''2024-13-01'')
   \<and> ParseDate_calls (example_runtime noon_2024_10_02 :: unit runtime) ''2024-13-01'' None
     = [Timestamp, Absolute]"
proof -
  let ?rt = "example_runtime noon_2024_10_02 :: unit runtime"
  let ?ctx = "make_context ?rt ''2024-13-01'' None"
  have en: "enabled_parsers (settings ?ctx) = priority_order"
    by (simp add: make_context_fields ex_en)
  have ts: "fails_generically (run_parser ?rt Timestamp ?ctx)"
    by (simp add: example_runtime_def no_match_def)
  have ab: "run_parser ?rt Absolute ?ctx = Inl (ErrInvalidDate ''2024-13-01'')"
    by (simp add: example_runtime_fields parseAbsolute_numeric_iso make_context_fields bad_month_iso
        assemble_def validDate_def)
  have "\<forall>j<1. fails_generically (run_parser ?rt (priority_order ! j) ?ctx)"
    using ts by (simp add: priority_order_def)
  then show ?thesis
    using specific_failures_short_circuit[of "''2024-13-01''" ?rt None] en ab
    by (auto simp: Let_def priority_order_def dest!: spec[where x = 1])
qed

text \<open>
  Claim C2 as stated lists the empty-input failure among those returned at once.  Here
  the timestamp parser raises it; \<open>ParseDate\<close> goes on to the absolute-date parser and
  returns its result.
\<close>

theorem specific_failures_counterexample:
  "ParseDate ((example_runtime noon_2024_10_02 :: unit runtime)\<lparr>parseTimestamp := raises ErrEmptyInput\<rparr>)
      ''2024-12-31'' None = Inr (goDate 2024 12 31 0 0 0 0 UTC)
   \<and> ParseDate_calls ((example_runtime noon_2024_10_02 :: unit runtime)\<lparr>parseTimestamp := raises ErrEmptyInput\<rparr>)
      ''2024-12-31'' None = [Timestamp, Absolute]"
proof -
  let ?rt = "(example_runtime noon_2024_10_02 :: unit runtime)\<lparr>parseTimestamp := raises ErrEmptyInput\<rparr>"
  let ?ctx = "make_context ?rt ''2024-12-31'' None"
  have ab: "parseAbsolute ?rt ?ctx = Inr (goDate 2024 12 31 0 0 0 0 UTC)"
    by (simp add: example_runtime_fields parseAbsolute_numeric_iso make_context_fields trim_ex ex_iso
        assemble_def validDate_def daysInMonth_def default_zone_def normalizeSettings_fields
        DefaultSettings_def)
  have en: "isParserEnabled (settings ?ctx) ''absolute''" "isParserEnabled (settings ?ctx) ''timestamp''"
    by (simp_all add: make_context_fields isParserEnabled_mem normalizeSettings_fields DefaultSettings_def)
  have ts: "fails_generically (parseTimestamp ?rt ?ctx)"
    by (simp add: raises_def)
  show ?thesis
    using ParseDate_absolute_decides[of "''2024-12-31''" ?rt None] en ts ab by simp
qed

section \<open>Facts about the enabled names\<close>

lemma parser_name_not_timezone: "parser_name p \<noteq> ''timezone''"
  by (cases p) simp_all

lemma enabled_parsers_filter:
  assumes "filter (\<lambda>n. n \<noteq> ''timezone'') (EnableParsers s) = filter (\<lambda>n. n \<noteq> ''timezone'') (EnableParsers s')"
  shows "enabled_parsers s = enabled_parsers s'"
proof -
  have "parser_name p \<in> set (EnableParsers s) \<longleftrightarrow> parser_name p \<in> set (EnableParsers s')" for p
  proof -
    have "parser_name p \<in> set (EnableParsers s) \<longleftrightarrow>
          parser_name p \<in> set (filter (\<lambda>n. n \<noteq> ''timezone'') (EnableParsers s))"
      using parser_name_not_timezone[of p] by simp
    also have "\<dots> \<longleftrightarrow> parser_name p \<in> set (filter (\<lambda>n. n \<noteq> ''timezone'') (EnableParsers s'))"
      using assms by simp
    also have "\<dots> \<longleftrightarrow> parser_name p \<in> set (EnableParsers s')"
      using parser_name_not_timezone[of p] by simp
    finally show ?thesis .
  qed
  then show ?thesis
    by (simp add: enabled_parsers_def isParserEnabled_mem)
qed

lemma tried_cong:
  "(\<And>p. run_parser rt p ctx' = run_parser rt p ctx) \<Longrightarrow> tried rt ctx' ps = tried rt ctx ps"
  by (induction ps) simp_all

lemma normalizeSettings_EnableParsers_update:
  assumes "eps \<noteq> []" "eps' \<noteq> []"
  shows "normalizeSettings now (opts\<lparr>EnableParsers := eps'\<rparr>) =
         (normalizeSettings now (opts\<lparr>EnableParsers := eps\<rparr>))\<lparr>EnableParsers := eps'\<rparr>"
  using assms by (intro Settings_eqI) (simp_all add: normalizeSettings_fields)

lemma only_timezone_enabled:
  "EnableParsers s = [''timezone''] \<Longrightarrow> enabled_parsers s = []"
  by (simp add: enabled_parsers_def priority_order_def isParserEnabled_mem)

lemma numeric_parts_insensitive:
  "assemble (c\<lparr>settings := (settings c)\<lparr>EnableParsers := names\<rparr>\<rparr>) y m d = assemble c y m d"
  "monthDay (c\<lparr>settings := (settings c)\<lparr>EnableParsers := names\<rparr>\<rparr>) a b y = monthDay c a b y"
  "no_match (c\<lparr>settings := (settings c)\<lparr>EnableParsers := names\<rparr>\<rparr>) = no_match c"
  "base_instant (c\<lparr>settings := (settings c)\<lparr>EnableParsers := names\<rparr>\<rparr>) = base_instant c"
  by (simp_all add: assemble_def monthDay_def no_match_def base_instant_def default_zone_def)

lemma example_insensitive:
  "run_parser (example_runtime now) p (c\<lparr>settings := (settings c)\<lparr>EnableParsers := names\<rparr>\<rparr>)
   = run_parser (example_runtime now) p c"
  by (cases p)
     (simp_all add: example_runtime_def numeric_parts_insensitive parseAbsolute_numeric_def Let_def
        split: option.splits prod.splits sum.splits)

lemma example_iso_run:
  assumes "isParserEnabled (normalizeSettings now opts) ''absolute''"
    and "PreferredTimezone opts = Some UTC \<or> PreferredTimezone opts = None"
  shows "ParseDate (example_runtime now :: 'l runtime) ''2024-12-31'' (Some opts)
         = Inr (goDate 2024 12 31 0 0 0 0 UTC)"
proof -
  let ?rt = "example_runtime now :: 'l runtime"
  let ?ctx = "make_context ?rt ''2024-12-31'' (Some opts)"
  have ab: "parseAbsolute ?rt ?ctx = Inr (goDate 2024 12 31 0 0 0 0 UTC)"
    using assms(2)
    by (auto simp: example_runtime_fields parseAbsolute_numeric_iso make_context_fields trim_ex ex_iso
        assemble_def validDate_def daysInMonth_def default_zone_def normalizeSettings_fields)
  have "ParseDate ?rt ''2024-12-31'' (Some opts) = parseAbsolute ?rt ?ctx"
  proof (rule ParseDate_absolute_decides(1))
    show "''2024-12-31'' \<noteq> []" by simp
    show "isParserEnabled (settings ?ctx) ''absolute''"
      using assms(1) by (simp add: make_context_fields example_runtime_fields)
    show "isParserEnabled (settings ?ctx) ''timestamp'' \<longrightarrow> fails_generically (parseTimestamp ?rt ?ctx)"
      by (simp add: example_runtime_fields no_match_generic)
    show "\<not> fails_generically (parseAbsolute ?rt ?ctx)"
      by (simp add: ab)
  qed
  then show ?thesis by (simp add: ab)
qed

section \<open>The name \<open>timezone\<close> in \<open>EnableParsers\<close>\<close>

text \<open>
  Claim C10, as the code has it.  No block of \<open>ParseDate\<close> tests the name \<open>timezone\<close>.
  With \<open>EnableParsers\<close> exactly \<open>[timezone]\<close>, \<open>ParseDate\<close> returns the invalid-format
  failure for every non-empty input and calls no strategy parser.  Two non-empty
  \<open>EnableParsers\<close> lists that differ only in occurrences of \<open>timezone\<close> enable the same
  parsers; if moreover the strategy parsers do not themselves read \<open>EnableParsers\<close>
  from the context, \<open>ParseDate\<close> returns the same result and makes the same calls for
  both.  (An empty list is not such a list: normalisation replaces it by the full
  default list.)
\<close>

theorem timezone_name_not_dispatched:
  "(EnableParsers opts = [''timezone''] \<and> inp \<noteq> []
      \<longrightarrow> ParseDate_run rt inp (Some opts) = (Inl (newInvalidFormatError inp), []))
   \<and> (eps \<noteq> [] \<and> eps' \<noteq> []
       \<and> filter (\<lambda>n. n \<noteq> ''timezone'') eps = filter (\<lambda>n. n \<noteq> ''timezone'') eps'
      \<longrightarrow> enabled_parsers (normalizeSettings now (opts\<lparr>EnableParsers := eps\<rparr>))
          = enabled_parsers (normalizeSettings now (opts\<lparr>EnableParsers := eps'\<rparr>)))
   \<and> (eps \<noteq> [] \<and> eps' \<noteq> []
       \<and> filter (\<lambda>n. n \<noteq> ''timezone'') eps = filter (\<lambda>n. n \<noteq> ''timezone'') eps'
       \<and> (\<forall>p c names. run_parser rt p (c\<lparr>settings := (settings c)\<lparr>EnableParsers := names\<rparr>\<rparr>)
                       = run_parser rt p c)
      \<longrightarrow> ParseDate rt inp (Some (opts\<lparr>EnableParsers := eps\<rparr>))
            = ParseDate rt inp (Some (opts\<lparr>EnableParsers := eps'\<rparr>))
        \<and> ParseDate_calls rt inp (Some (opts\<lparr>EnableParsers := eps\<rparr>))
            = ParseDate_calls rt inp (Some (opts\<lparr>EnableParsers := eps'\<rparr>)))"
proof -
  have a: "ParseDate_run rt inp (Some opts) = (Inl (newInvalidFormatError inp), [])"
    if "EnableParsers opts = [''timezone'']" "inp \<noteq> []"
  proof -
    have "enabled_parsers (settings (make_context rt inp (Some opts))) = []"
      using that(1) by (intro only_timezone_enabled) (simp add: make_context_fields normalizeSettings_fields)
    then show ?thesis
      using that(2) by (simp add: ParseDate_run_dispatch no_parser_succeeded_def make_context_fields)
  qed
  have b: "enabled_parsers (normalizeSettings t (opts\<lparr>EnableParsers := eps\<rparr>))
          = enabled_parsers (normalizeSettings t (opts\<lparr>EnableParsers := eps'\<rparr>))"
    if "eps \<noteq> []" "eps' \<noteq> []"
      "filter (\<lambda>n. n \<noteq> ''timezone'') eps = filter (\<lambda>n. n \<noteq> ''timezone'') eps'" for t
    using that by (intro enabled_parsers_filter) (simp add: normalizeSettings_fields)
  have c: "ParseDate rt inp (Some (opts\<lparr>EnableParsers := eps\<rparr>))
            = ParseDate rt inp (Some (opts\<lparr>EnableParsers := eps'\<rparr>))
        \<and> ParseDate_calls rt inp (Some (opts\<lparr>EnableParsers := eps\<rparr>))
            = ParseDate_calls rt inp (Some (opts\<lparr>EnableParsers := eps'\<rparr>))"
    if ne: "eps \<noteq> []" "eps' \<noteq> []"
      and f: "filter (\<lambda>n. n \<noteq> ''timezone'') eps = filter (\<lambda>n. n \<noteq> ''timezone'') eps'"
      and ins: "\<forall>p c names. run_parser rt p (c\<lparr>settings := (settings c)\<lparr>EnableParsers := names\<rparr>\<rparr>)
                       = run_parser rt p c"
  proof (cases "inp = []")
    case True
    then show ?thesis by (simp add: ParseDate_def ParseDate_calls_def ParseDate_run_def)
  next
    case False
    define ctx where "ctx = make_context rt inp (Some (opts\<lparr>EnableParsers := eps\<rparr>))"
    define ctx' where "ctx' = make_context rt inp (Some (opts\<lparr>EnableParsers := eps'\<rparr>))"
    have ctx': "ctx' = ctx\<lparr>settings := (settings ctx)\<lparr>EnableParsers := eps'\<rparr>\<rparr>"
      unfolding ctx_def ctx'_def make_context_def Let_def
      using normalizeSettings_EnableParsers_update[OF ne, of "clock_now rt" opts]
      by (simp add: normalizeSettings_fields)
    have run: "run_parser rt p ctx' = run_parser rt p ctx" for p
      using ins by (simp add: ctx')
    have en: "enabled_parsers (settings ctx') = enabled_parsers (settings ctx)"
      using b[OF ne f, of "clock_now rt"] by (simp add: ctx_def ctx'_def make_context_fields)
    have calls: "ParseDate_calls rt inp (Some (opts\<lparr>EnableParsers := eps\<rparr>))
            = ParseDate_calls rt inp (Some (opts\<lparr>EnableParsers := eps'\<rparr>))"
      using False tried_cong[of rt ctx' ctx, OF run] en
      by (simp add: ParseDate_calls_tried ctx_def[symmetric] ctx'_def[symmetric])
    have "ParseDate rt inp (Some (opts\<lparr>EnableParsers := eps\<rparr>))
            = ParseDate rt inp (Some (opts\<lparr>EnableParsers := eps'\<rparr>))"
      using False calls en run
      by (simp add: ParseDate_result ctx_def[symmetric] ctx'_def[symmetric])
    then show ?thesis using calls by simp
  qed
  show ?thesis using a b[of now] c by blast
qed

theorem timezone_name_not_dispatched_witness:
  "ParseDate_run (example_runtime noon_2024_10_02 :: unit runtime) ''2024-12-31''
      (Some (DefaultSettings\<lparr>EnableParsers := [''timezone'']\<rparr>))
     = (Inl (ErrInvalidFormat ''2024-12-31''), [])
   \<and> ParseDate (example_runtime noon_2024_10_02 :: unit runtime) ''2024-12-31''
      (Some (DefaultSettings\<lparr>EnableParsers := [''timezone'', ''absolute'', ''timezone'']\<rparr>))
     = Inr (goDate 2024 12 31 0 0 0 0 UTC)
   \<and> ParseDate (example_runtime noon_2024_10_02 :: unit runtime) ''2024-12-31''
      (Some (DefaultSettings\<lparr>EnableParsers := [''absolute'']\<rparr>))
     = Inr (goDate 2024 12 31 0 0 0 0 UTC)"
proof -
  let ?rt = "example_runtime noon_2024_10_02 :: unit runtime"
  note a = timezone_name_not_dispatched[of "DefaultSettings\<lparr>EnableParsers := [''timezone'']\<rparr>"
      "''2024-12-31''" ?rt "[''absolute'']" "[''timezone'', ''absolute'', ''timezone'']" noon_2024_10_02]
  note b = timezone_name_not_dispatched[of DefaultSettings
      "''2024-12-31''" ?rt "[''absolute'']" "[''timezone'', ''absolute'', ''timezone'']" noon_2024_10_02]
  have c: "ParseDate ?rt ''2024-12-31'' (Some (DefaultSettings\<lparr>EnableParsers := [''absolute'']\<rparr>))
     = Inr (goDate 2024 12 31 0 0 0 0 UTC)"
    by (rule example_iso_run)
       (simp_all add: isParserEnabled_mem normalizeSettings_fields DefaultSettings_def)
  have ins: "\<forall>p c names. run_parser ?rt p (c\<lparr>settings := (settings c)\<lparr>EnableParsers := names\<rparr>\<rparr>)
                       = run_parser ?rt p c"
    by (simp add: example_insensitive)
  have d: "ParseDate ?rt ''2024-12-31''
      (Some (DefaultSettings\<lparr>EnableParsers := [''timezone'', ''absolute'', ''timezone'']\<rparr>))
     = Inr (goDate 2024 12 31 0 0 0 0 UTC)"
    using b ins c by simp
  show ?thesis
    using a c d by (simp add: newInvalidFormatError_def)
qed

text \<open>
  Claim C10 as stated lets \<open>timezone\<close> be removed from any list.  Removing it from
  \<open>[timezone]\<close> leaves the empty list, which enables every parser: the result changes
  from the invalid-format failure to the parsed date.
\<close>

theorem timezone_name_counterexample:
  "ParseDate (example_runtime noon_2024_10_02 :: unit runtime) ''2024-12-31''
      (Some (DefaultSettings\<lparr>EnableParsers := [''timezone'']\<rparr>))
     = Inl (ErrInvalidFormat ''2024-12-31'')
   \<and> ParseDate (example_runtime noon_2024_10_02 :: unit runtime) ''2024-12-31''
      (Some (DefaultSettings\<lparr>EnableParsers := []\<rparr>))
     = Inr (goDate 2024 12 31 0 0 0 0 UTC)"
proof -
  let ?rt = "example_runtime noon_2024_10_02 :: unit runtime"
  have "enabled_parsers (settings (make_context ?rt ''2024-12-31''
           (Some (DefaultSettings\<lparr>EnableParsers := [''timezone'']\<rparr>)))) = []"
    by (intro only_timezone_enabled) (simp add: make_context_fields normalizeSettings_fields)
  then have a: "ParseDate ?rt ''2024-12-31'' (Some (DefaultSettings\<lparr>EnableParsers := [''timezone'']\<rparr>))
     = Inl (ErrInvalidFormat ''2024-12-31'')"
    by (simp add: ParseDate_def ParseDate_run_dispatch no_parser_succeeded_def make_context_fields
        newInvalidFormatError_def)
  have b: "ParseDate ?rt ''2024-12-31'' (Some (DefaultSettings\<lparr>EnableParsers := []\<rparr>))
     = Inr (goDate 2024 12 31 0 0 0 0 UTC)"
    by (rule example_iso_run)
       (simp_all add: isParserEnabled_mem normalizeSettings_fields DefaultSettings_def)
  show ?thesis using a b by simp
qed

section \<open>Facts about the clock\<close>















section \<open>What a call reads besides its arguments\<close>




section \<open>Facts about the numeric grammars\<close>

lemma of_char_digitChar: "k \<le> 9 \<Longrightarrow> (of_char (digitChar k) :: nat) = 48 + k"
  by (simp add: digitChar_def)

lemma digitChar_facts:
  assumes "k \<le> 9"
  shows "isDigit (digitChar k)" "digitVal (digitChar k) = int k"
    "digitChar k \<noteq> CHR ''-''" "\<not> isSpace (digitChar k)"
proof -
  have oc: "(of_char (digitChar k) :: nat) = 48 + k"
    using assms by (rule of_char_digitChar)
  show "isDigit (digitChar k)" using assms by (simp add: isDigit_def oc)
  show "digitVal (digitChar k) = int k" by (simp add: digitVal_def oc)
  have ne: "digitChar k \<noteq> c" if "(of_char c :: nat) < 48" for c
  proof
    assume "digitChar k = c"
    then have "(of_char (digitChar k) :: nat) = of_char c" by simp
    then show False using that oc by simp
  qed
  show "digitChar k \<noteq> CHR ''-''" by (rule ne) simp
  show "\<not> isSpace (digitChar k)"
    unfolding isSpace_def using ne[of "CHR '' ''"] ne[of "CHR 0x09"] ne[of "CHR 0x0A"] ne[of "CHR 0x0B"] ne[of "CHR 0x0C"]
      ne[of "CHR 0x0D"]
    by simp
qed

lemma trimSpace_no_outer_space:
  assumes "s \<noteq> []" "\<not> isSpace (hd s)" "\<not> isSpace (last s)"
  shows "trimSpace s = s"
proof -
  have a: "dropWhile isSpace s = s"
    using assms(1,2) by (cases s) simp_all
  have "rev s \<noteq> []" "\<not> isSpace (hd (rev s))"
    using assms by (simp_all add: hd_rev)
  then have "dropWhile isSpace (rev s) = rev s"
    by (cases "rev s") simp_all
  then show ?thesis by (simp add: trimSpace_def a)
qed

lemma decimal4:
  fixes y :: int
  shows "10 * (10 * (10 * (y div 1000) + y div 100 mod 10) + y div 10 mod 10) + y mod 10 = y"
proof -
  have a: "y div 100 = y div 10 div 10" by (simp add: zdiv_zmult2_eq)
  have b: "y div 1000 = y div 10 div 10 div 10" by (simp add: zdiv_zmult2_eq)
  have "10 * (y div 10 div 10 div 10) + y div 10 div 10 mod 10 = y div 10 div 10" by simp
  moreover have "10 * (y div 10 div 10) + y div 10 mod 10 = y div 10" by simp
  moreover have "10 * (y div 10) + y mod 10 = y" by simp
  ultimately show ?thesis unfolding a b by simp
qed

lemma number4: "number [a, b, c, e] = 10 * (10 * (10 * digitVal a + digitVal b) + digitVal c) + digitVal e"
  by (simp add: number_def)

lemma number2: "number [a, b] = 10 * digitVal a + digitVal b"
  by (simp add: number_def)

lemma digit_ranges:
  fixes y m d :: int
  assumes "0 \<le> y" "y \<le> 9999" "0 \<le> m" "m \<le> 99" "0 \<le> d" "d \<le> 99"
  shows "nat (y div 1000) \<le> 9" "nat (y div 100 mod 10) \<le> 9" "nat (y div 10 mod 10) \<le> 9"
    "nat (y mod 10) \<le> 9" "nat (m div 10) \<le> 9" "nat (m mod 10) \<le> 9"
    "nat (d div 10) \<le> 9" "nat (d mod 10) \<le> 9"
proof -
  have md: "nat (x mod 10) \<le> 9" for x :: int
  proof -
    have "x mod 10 < 10" by simp
    then show ?thesis by linarith
  qed
  show "nat (y div 100 mod 10) \<le> 9" "nat (y div 10 mod 10) \<le> 9"
    "nat (y mod 10) \<le> 9" "nat (m mod 10) \<le> 9" "nat (d mod 10) \<le> 9"
    by (rule md)+
  have "y div 1000 \<le> 9" using assms(2) by linarith
  then show "nat (y div 1000) \<le> 9" by linarith
  have "m div 10 \<le> 9" using assms(4) by linarith
  then show "nat (m div 10) \<le> 9" by linarith
  have "d div 10 \<le> 9" using assms(6) by linarith
  then show "nat (d div 10) \<le> 9" by linarith
qed



lemma isoCalendar_isoString:
  assumes "0 \<le> y" "y \<le> 9999" "0 \<le> m" "m \<le> 99" "0 \<le> d" "d \<le> 99"
  shows "isoCalendar (isoString y m d) = Some (y, m, d)"
proof -
  note r = digit_ranges[OF assms]
  note dg = r[THEN digitChar_facts(1)]
  note dv = r[THEN digitChar_facts(2)]
  note ne = r[THEN digitChar_facts(3)]
  have sp: "splitOn CHR ''-'' (isoString y m d) =
     [[digitChar (nat (y div 1000)), digitChar (nat (y div 100 mod 10)),
       digitChar (nat (y div 10 mod 10)), digitChar (nat (y mod 10))],
      [digitChar (nat (m div 10)), digitChar (nat (m mod 10))],
      [digitChar (nat (d div 10)), digitChar (nat (d mod 10))]]"
    unfolding isoString_def by (simp add: ne)
  have y0: "0 \<le> y div 1000" "0 \<le> y div 100 mod 10" "0 \<le> y div 10 mod 10" "0 \<le> y mod 10"
    "0 \<le> m div 10" "0 \<le> m mod 10" "0 \<le> d div 10" "0 \<le> d mod 10"
    using assms by (simp_all add: pos_imp_zdiv_nonneg_iff)
  note iv = y0[THEN int_nat_eq[THEN trans, OF if_P]]
  have ny: "number [digitChar (nat (y div 1000)), digitChar (nat (y div 100 mod 10)),
       digitChar (nat (y div 10 mod 10)), digitChar (nat (y mod 10))] = y"
    unfolding number4 dv iv by (rule decimal4)
  have nm: "number [digitChar (nat (m div 10)), digitChar (nat (m mod 10))] = m"
    unfolding number2 dv iv by simp
  have nd: "number [digitChar (nat (d div 10)), digitChar (nat (d mod 10))] = d"
    unfolding number2 dv iv by simp
  show ?thesis
    unfolding isoCalendar_def sp by (simp add: allDigits_def dg ny nm nd)
qed

lemma hd_isoString: "hd (isoString y m d) = digitChar (nat (y div 1000))"
  by (simp add: isoString_def)

lemma last_isoString: "last (isoString y m d) = digitChar (nat (d mod 10))"
  by (simp add: isoString_def)

lemma trimSpace_isoString:
  assumes "0 \<le> y" "y \<le> 9999" "0 \<le> m" "m \<le> 99" "0 \<le> d" "d \<le> 99"
  shows "trimSpace (isoString y m d) = isoString y m d"
proof (rule trimSpace_no_outer_space)
  note r = digit_ranges[OF assms]
  show "isoString y m d \<noteq> []" by (simp add: isoString_def)
  show "\<not> isSpace (hd (isoString y m d))"
    unfolding hd_isoString using r(1) by (rule digitChar_facts)
  show "\<not> isSpace (last (isoString y m d))"
    unfolding last_isoString using r(8) by (rule digitChar_facts)
qed

section \<open>Facts about runs decided by the absolute-date parser\<close>

lemma absolute_enabled_iff:
  "isParserEnabled (normalizeSettings now opts) ''absolute'' \<longleftrightarrow>
   EnableParsers opts = [] \<or> ''absolute'' \<in> set (EnableParsers opts)"
  by (simp add: isParserEnabled_mem normalizeSettings_fields)

lemma default_zone_normalized:
  "default_zone (normalizeSettings now opts) = (case PreferredTimezone opts of None \<Rightarrow> UTC | Some l \<Rightarrow> l)"
  by (simp add: default_zone_def normalizeSettings_fields split: option.splits)

lemma ParseDate_numeric:
  assumes "parseAbsolute rt = parseAbsolute_numeric other"
    and "EnableParsers opts = [] \<or> ''absolute'' \<in> set (EnableParsers opts)"
    and "\<forall>c. input c = inp \<longrightarrow> fails_generically (parseTimestamp rt c)"
    and "inp \<noteq> []"
    and "\<not> fails_generically (parseAbsolute_numeric other (make_context rt inp (Some opts)))"
  shows "ParseDate rt inp (Some opts) = parseAbsolute_numeric other (make_context rt inp (Some opts))"
proof -
  let ?ctx = "make_context rt inp (Some opts)"
  have "ParseDate rt inp (Some opts) = parseAbsolute rt ?ctx"
  proof (rule ParseDate_absolute_decides(1))
    show "inp \<noteq> []" by fact
    show "isParserEnabled (settings ?ctx) ''absolute''"
      using assms(2) by (simp add: make_context_fields absolute_enabled_iff)
    show "isParserEnabled (settings ?ctx) ''timestamp'' \<longrightarrow> fails_generically (parseTimestamp rt ?ctx)"
      using assms(3) by (simp add: make_context_fields)
    show "\<not> fails_generically (parseAbsolute rt ?ctx)"
      using assms(5) by (simp add: assms(1))
  qed
  then show ?thesis by (simp add: assms(1))
qed

lemma isoString_nonempty: "isoString y m d \<noteq> []"
  by (simp add: isoString_def)

lemma isoString_2024_02_29: "isoString 2024 2 29 = ''2024-02-29''"
  by code_simp


lemma example_timestamp_rejects:
  "\<forall>c. input c = inp \<longrightarrow> fails_generically (parseTimestamp (example_runtime now) c)"
  by (simp add: example_runtime_fields no_match_generic)

lemma valid_2024_02_29: "validDate 2024 2 29"
  by (simp add: validDate_def daysInMonth_def isLeapYear_def)

lemma slash_2024_facts:
  "trimSpace ''01/02/2024'' = ''01/02/2024''"
  "isoCalendar ''01/02/2024'' = None"
  "yearLast ''01/02/2024'' = Some (1, 2, 2024)"
  by (simp_all add: trimSpace_def isSpace_def isoCalendar_def yearLast_def yearLastWith_def
      allDigits_def isDigit_def number_def digitVal_def)

lemma parseAbsolute_numeric_yearLast:
  assumes "isoCalendar (trimSpace (input ctx)) = None"
    and "yearLast (trimSpace (input ctx)) = Some (a, b, y)"
  shows "parseAbsolute_numeric other ctx =
         (case monthDay ctx a b y of Inl e \<Rightarrow> Inl e | Inr (m, d) \<Rightarrow> assemble ctx y m d)"
  using assms by (simp add: parseAbsolute_numeric_def)

lemma valid_small: "validDate 2024 1 2" "validDate 2024 2 1" "validDate 2030 1 2" "validDate 2005 1 2"
  by (simp_all add: validDate_def daysInMonth_def)

lemma slash_short_facts:
  "trimSpace ''01/02/30'' = ''01/02/30''"
  "isoCalendar ''01/02/30'' = None"
  "yearLast ''01/02/30'' = Some (1, 2, twoDigitYear 30)"
  "trimSpace ''01/02/05'' = ''01/02/05''"
  "isoCalendar ''01/02/05'' = None"
  "yearLast ''01/02/05'' = Some (1, 2, twoDigitYear 5)"
  by (simp_all add: trimSpace_def isSpace_def isoCalendar_def yearLast_def yearLastWith_def
      allDigits_def isDigit_def number_def digitVal_def)

lemma twoDigitYear_values: "twoDigitYear 30 = 2030" "twoDigitYear 5 = 2005"
  by (simp_all add: twoDigitYear_def)

lemma digitVal_range: "isDigit c \<Longrightarrow> 0 \<le> digitVal c \<and> digitVal c \<le> 9"
  by (auto simp: isDigit_def digitVal_def)

lemma two_digit_field:
  assumes "allDigits c" "length c = 2"
  shows "0 \<le> number c \<and> number c \<le> 99"
proof -
  obtain c1 c2 where c: "c = [c1, c2]"
    using assms(2) by (auto simp: length_Suc_conv numeral_2_eq_2)
  have "isDigit c1" "isDigit c2" using assms(1) by (simp_all add: c allDigits_def)
  then show ?thesis
    using digitVal_range[of c1] digitVal_range[of c2] by (simp add: c number2)
qed

lemma yearLastWith_two_digit:
  assumes "yearLastWith sep s = Some (a, b, y)" "length (splitOn sep s ! 2) = 2"
  shows "y = twoDigitYear (number (splitOn sep s ! 2))
       \<and> 0 \<le> number (splitOn sep s ! 2) \<and> number (splitOn sep s ! 2) \<le> 99"
proof -
  obtain f1 f2 f3 where sp: "splitOn sep s = [f1, f2, f3]"
    using assms(1)
    by (auto simp: yearLastWith_def split: list.splits)
  have "allDigits f3" "y = twoDigitYear (number f3)"
    using assms by (auto simp: yearLastWith_def sp split: if_splits)
  then show ?thesis
    using two_digit_field[of f3] assms(2) by (simp add: sp)
qed

lemma short_year_run:
  assumes "parseAbsolute rt = parseAbsolute_numeric other"
    and "EnableParsers opts = [] \<or> ''absolute'' \<in> set (EnableParsers opts)"
    and "DateOrder opts = ''MDY''"
    and "\<forall>c. input c = inp \<longrightarrow> fails_generically (parseTimestamp rt c)"
    and "trimSpace inp = inp" "isoCalendar inp = None" "yearLast inp = Some (1, 2, y)"
    and "validDate y 1 2" "inp \<noteq> []"
  shows "ParseDate rt inp (Some opts)
         = Inr (goDate y 1 2 0 0 0 0 (case PreferredTimezone opts of None \<Rightarrow> UTC | Some l \<Rightarrow> l))"
proof -
  let ?ctx = "make_context rt inp (Some opts)"
  have num: "parseAbsolute_numeric other ?ctx =
         (case monthDay ?ctx 1 2 y of Inl e \<Rightarrow> Inl e | Inr (m, d) \<Rightarrow> assemble ?ctx y m d)"
    by (rule parseAbsolute_numeric_yearLast) (simp_all only: make_context_fields assms(5,6,7))
  have "monthDay ?ctx 1 2 y = Inr (1, 2)"
    using assms(3) by (simp add: monthDay_def make_context_fields normalizeSettings_fields byPreference_def)
  then have val: "parseAbsolute_numeric other ?ctx
      = Inr (goDate y 1 2 0 0 0 0 (case PreferredTimezone opts of None \<Rightarrow> UTC | Some l \<Rightarrow> l))"
    using assms(8) by (simp add: num assemble_def make_context_fields default_zone_normalized)
  have "ParseDate rt inp (Some opts) = parseAbsolute_numeric other ?ctx"
    using assms(1,2,4,9) by (intro ParseDate_numeric) (simp_all add: val)
  then show ?thesis by (simp add: val)
qed

lemma years_differ: "goDate 2030 1 2 0 0 0 0 UTC \<noteq> goDate 1930 1 2 0 0 0 0 UTC"
  by code_simp

section \<open>ISO-8601 calendar dates\<close>

text \<open>
  Claim C8, as the code has it.  For every valid calendar date with a year from 0000 to
  9999, written as \<open>YYYY-MM-DD\<close>, and every configuration in which the absolute-date
  parser is enabled, \<open>ParseDate\<close> returns exactly that date at midnight in the default
  timezone, whichever component order is configured, provided the timestamp parser
  (which runs first) reports a generic no-match on that text.  The absolute-date parser
  is the numeric model of it.
\<close>

theorem iso_calendar_dates:
  assumes "0 \<le> y" and "y \<le> 9999" and "validDate y m d"
    and "parseAbsolute rt = parseAbsolute_numeric other"
    and "EnableParsers opts = [] \<or> ''absolute'' \<in> set (EnableParsers opts)"
    and "\<forall>c. input c = isoString y m d \<longrightarrow> fails_generically (parseTimestamp rt c)"
  shows "\<forall>order. ParseDate rt (isoString y m d) (Some (opts\<lparr>DateOrder := order\<rparr>))
           = Inr (goDate y m d 0 0 0 0 (case PreferredTimezone opts of None \<Rightarrow> UTC | Some l \<Rightarrow> l))"
proof
  fix order
  let ?opts = "opts\<lparr>DateOrder := order\<rparr>"
  let ?ctx = "make_context rt (isoString y m d) (Some ?opts)"
  have md: "0 \<le> m" "m \<le> 99" "0 \<le> d" "d \<le> 99"
    using assms(3) by (auto simp: validDate_def daysInMonth_def split: if_splits)
  have iso: "isoCalendar (trimSpace (input ?ctx)) = Some (y, m, d)"
    using assms(1,2) md
    by (simp add: make_context_fields trimSpace_isoString isoCalendar_isoString)
  have val: "parseAbsolute_numeric other ?ctx
      = Inr (goDate y m d 0 0 0 0 (case PreferredTimezone opts of None \<Rightarrow> UTC | Some l \<Rightarrow> l))"
    using assms(3)
    by (simp add: parseAbsolute_numeric_iso[OF iso] assemble_def make_context_fields
        default_zone_normalized)
  have "ParseDate rt (isoString y m d) (Some ?opts) = parseAbsolute_numeric other ?ctx"
    using assms(4,5,6) by (intro ParseDate_numeric) (simp_all add: isoString_nonempty val)
  then show "ParseDate rt (isoString y m d) (Some ?opts)
           = Inr (goDate y m d 0 0 0 0 (case PreferredTimezone opts of None \<Rightarrow> UTC | Some l \<Rightarrow> l))"
    by (simp add: val)
qed

theorem iso_calendar_dates_witness:
  "ParseDate (example_runtime noon_2024_10_02 :: unit runtime) ''2024-02-29''
      (Some (DefaultSettings\<lparr>DateOrder := ''YMD''\<rparr>)) = Inr (goDate 2024 2 29 0 0 0 0 UTC)
   \<and> ParseDate (example_runtime noon_2024_10_02 :: unit runtime) ''2024-02-29''
      (Some (DefaultSettings\<lparr>DateOrder := ''MDY''\<rparr>)) = Inr (goDate 2024 2 29 0 0 0 0 UTC)
   \<and> ParseDate (example_runtime noon_2024_10_02 :: unit runtime) ''2024-02-29''
      (Some (DefaultSettings\<lparr>DateOrder := ''DMY''\<rparr>)) = Inr (goDate 2024 2 29 0 0 0 0 UTC)"
proof -
  let ?rt = "example_runtime noon_2024_10_02 :: unit runtime"
  have "\<forall>order. ParseDate ?rt (isoString 2024 2 29) (Some (DefaultSettings\<lparr>DateOrder := order\<rparr>))
           = Inr (goDate 2024 2 29 0 0 0 0
                    (case PreferredTimezone DefaultSettings of None \<Rightarrow> UTC | Some l \<Rightarrow> l))"
  proof (rule iso_calendar_dates)
    show "(0::int) \<le> 2024" "(2024::int) \<le> 9999" by simp_all
    show "validDate 2024 2 29" by (rule valid_2024_02_29)
    show "parseAbsolute ?rt = parseAbsolute_numeric no_match"
      by (simp add: example_runtime_fields)
    show "EnableParsers DefaultSettings = [] \<or> ''absolute'' \<in> set (EnableParsers DefaultSettings)"
      by (simp add: DefaultSettings_def)
    show "\<forall>c. input c = isoString 2024 2 29 \<longrightarrow> fails_generically (parseTimestamp ?rt c)"
      by (rule example_timestamp_rejects)
  qed
  then show ?thesis
    by (simp add: isoString_2024_02_29 DefaultSettings_def)
qed

text \<open>
  Claim C8 as stated holds for every configuration.  In a configuration that does not
  enable the absolute-date parser, here one that names only \<open>timezone\<close>, no parser is
  called and the valid ISO date is answered with the invalid-format failure, whatever
  the strategy parsers are.
\<close>

theorem iso_calendar_dates_counterexample:
  "\<forall>rt :: unit runtime.
     ParseDate rt ''2024-02-29'' (Some (DefaultSettings\<lparr>EnableParsers := [''timezone'']\<rparr>))
       = Inl (ErrInvalidFormat ''2024-02-29'')"
proof
  fix rt :: "unit runtime"
  have "enabled_parsers (settings (make_context rt ''2024-02-29''
           (Some (DefaultSettings\<lparr>EnableParsers := [''timezone'']\<rparr>)))) = []"
    by (intro only_timezone_enabled) (simp add: make_context_fields normalizeSettings_fields)
  then show "ParseDate rt ''2024-02-29'' (Some (DefaultSettings\<lparr>EnableParsers := [''timezone'']\<rparr>))
       = Inl (ErrInvalidFormat ''2024-02-29'')"
    by (simp add: ParseDate_def ParseDate_run_dispatch no_parser_succeeded_def make_context_fields
        newInvalidFormatError_def)
qed

section \<open>Ambiguous numeric dates in strict mode\<close>

text \<open>
  Claim C5.  With \<open>Strict\<close> set and \<open>DateOrder\<close> left unset, \<open>ParseDate\<close> on \<open>01/02/2024\<close>
  returns the ambiguous-date failure; with \<open>DateOrder\<close> set to \<open>MDY\<close> it returns January 2,
  2024 (at midnight in the default timezone).  \<open>ParseDate\<close> records that the order was
  left unset before normalisation replaces it by \<open>MDY\<close>.  The absolute-date parser is
  the numeric model of it and is enabled; the timestamp parser reports a generic
  no-match on that text.
\<close>

theorem strict_ambiguity:
  assumes "parseAbsolute rt = parseAbsolute_numeric other"
    and "EnableParsers opts = [] \<or> ''absolute'' \<in> set (EnableParsers opts)"
    and "\<forall>c. input c = ''01/02/2024'' \<longrightarrow> fails_generically (parseTimestamp rt c)"
  shows "(Strict opts \<and> DateOrder opts = []
            \<longrightarrow> ParseDate rt ''01/02/2024'' (Some opts) = Inl (ErrAmbiguousDate ''01/02/2024''))
       \<and> (DateOrder opts = ''MDY''
            \<longrightarrow> ParseDate rt ''01/02/2024'' (Some opts)
                = Inr (goDate 2024 1 2 0 0 0 0
                         (case PreferredTimezone opts of None \<Rightarrow> UTC | Some l \<Rightarrow> l)))"
proof -
  let ?ctx = "make_context rt ''01/02/2024'' (Some opts)"
  have num: "parseAbsolute_numeric other ?ctx =
         (case monthDay ?ctx 1 2 2024 of Inl e \<Rightarrow> Inl e | Inr (m, d) \<Rightarrow> assemble ?ctx 2024 m d)"
    by (rule parseAbsolute_numeric_yearLast) (simp_all only: make_context_fields slash_2024_facts)
  have a: "ParseDate rt ''01/02/2024'' (Some opts) = Inl (ErrAmbiguousDate ''01/02/2024'')"
    if "Strict opts" "DateOrder opts = []"
  proof -
    have "monthDay ?ctx 1 2 2024 = Inl (ErrAmbiguousDate ''01/02/2024'')"
      using that by (simp add: monthDay_def make_context_fields normalizeSettings_fields valid_small)
    then have val: "parseAbsolute_numeric other ?ctx = Inl (ErrAmbiguousDate ''01/02/2024'')"
      by (simp add: num)
    have "ParseDate rt ''01/02/2024'' (Some opts) = parseAbsolute_numeric other ?ctx"
      using assms by (intro ParseDate_numeric) (simp_all add: val)
    then show ?thesis by (simp add: val)
  qed
  have b: "ParseDate rt ''01/02/2024'' (Some opts)
                = Inr (goDate 2024 1 2 0 0 0 0
                         (case PreferredTimezone opts of None \<Rightarrow> UTC | Some l \<Rightarrow> l))"
    if "DateOrder opts = ''MDY''"
  proof -
    have "monthDay ?ctx 1 2 2024 = Inr (1, 2)"
      using that by (simp add: monthDay_def make_context_fields normalizeSettings_fields byPreference_def)
    then have val: "parseAbsolute_numeric other ?ctx
        = Inr (goDate 2024 1 2 0 0 0 0 (case PreferredTimezone opts of None \<Rightarrow> UTC | Some l \<Rightarrow> l))"
      by (simp add: num assemble_def valid_small make_context_fields default_zone_normalized)
    have "ParseDate rt ''01/02/2024'' (Some opts) = parseAbsolute_numeric other ?ctx"
      using assms by (intro ParseDate_numeric) (simp_all add: val)
    then show ?thesis by (simp add: val)
  qed
  show ?thesis using a b by blast
qed

theorem strict_ambiguity_witness:
  "ParseDate (example_runtime noon_2024_10_02 :: unit runtime) ''01/02/2024''
      (Some (DefaultSettings\<lparr>DateOrder := [], Strict := True\<rparr>))
     = Inl (ErrAmbiguousDate ''01/02/2024'')
   \<and> ParseDate (example_runtime noon_2024_10_02 :: unit runtime) ''01/02/2024''
      (Some (DefaultSettings\<lparr>DateOrder := ''MDY'', Strict := True\<rparr>))
     = Inr (goDate 2024 1 2 0 0 0 0 UTC)"
proof -
  let ?rt = "example_runtime noon_2024_10_02 :: unit runtime"
  have ab: "parseAbsolute ?rt = parseAbsolute_numeric no_match"
    by (simp add: example_runtime_fields)
  note ts = example_timestamp_rejects[of "''01/02/2024''" noon_2024_10_02]
  have a: "ParseDate ?rt ''01/02/2024'' (Some (DefaultSettings\<lparr>DateOrder := [], Strict := True\<rparr>))
     = Inl (ErrAmbiguousDate ''01/02/2024'')"
    using strict_ambiguity[OF ab _ ts, of "DefaultSettings\<lparr>DateOrder := [], Strict := True\<rparr>"]
    by (simp add: DefaultSettings_def)
  have b: "ParseDate ?rt ''01/02/2024'' (Some (DefaultSettings\<lparr>DateOrder := ''MDY'', Strict := True\<rparr>))
     = Inr (goDate 2024 1 2 0 0 0 0 UTC)"
    using strict_ambiguity[OF ab _ ts, of "DefaultSettings\<lparr>DateOrder := ''MDY'', Strict := True\<rparr>"]
    by (simp add: DefaultSettings_def)
  show ?thesis using a b by simp
qed


section \<open>Two-digit years\<close>

text \<open>
  Claim C4, amended.  Two-digit year values 00 to 69 resolve to 2000 to 2069 and values
  70 to 99 to 1970 to 1999; every two-digit year field of a year-last numeric date is
  resolved by that rule; under \<open>MDY\<close>, \<open>01/02/30\<close> resolves to January 2, 2030 and
  \<open>01/02/05\<close> to January 2, 2005.  The absolute-date parser is the numeric model of it
  and is enabled; the timestamp parser reports a generic no-match on these texts.
\<close>

theorem two_digit_years:
  assumes "parseAbsolute rt = parseAbsolute_numeric other"
    and "EnableParsers opts = [] \<or> ''absolute'' \<in> set (EnableParsers opts)"
    and "DateOrder opts = ''MDY''"
    and "\<forall>c. input c = ''01/02/30'' \<or> input c = ''01/02/05''
             \<longrightarrow> fails_generically (parseTimestamp rt c)"
  shows "(\<forall>yy. 0 \<le> yy \<and> yy \<le> 69 \<longrightarrow> twoDigitYear yy = 2000 + yy)
       \<and> (\<forall>yy. 70 \<le> yy \<and> yy \<le> 99 \<longrightarrow> twoDigitYear yy = 1900 + yy)
       \<and> (\<forall>sep s a b y. yearLastWith sep s = Some (a, b, y) \<and> length (splitOn sep s ! 2) = 2
             \<longrightarrow> y = twoDigitYear (number (splitOn sep s ! 2))
               \<and> 0 \<le> number (splitOn sep s ! 2) \<and> number (splitOn sep s ! 2) \<le> 99)
       \<and> ParseDate rt ''01/02/30'' (Some opts)
           = Inr (goDate 2030 1 2 0 0 0 0 (case PreferredTimezone opts of None \<Rightarrow> UTC | Some l \<Rightarrow> l))
       \<and> ParseDate rt ''01/02/05'' (Some opts)
           = Inr (goDate 2005 1 2 0 0 0 0 (case PreferredTimezone opts of None \<Rightarrow> UTC | Some l \<Rightarrow> l))"
proof -
  have a: "\<forall>yy. 0 \<le> yy \<and> yy \<le> 69 \<longrightarrow> twoDigitYear yy = 2000 + yy"
    by (simp add: twoDigitYear_def)
  have b: "\<forall>yy. 70 \<le> yy \<and> yy \<le> 99 \<longrightarrow> twoDigitYear yy = 1900 + yy"
    by (simp add: twoDigitYear_def)
  have c: "\<forall>sep s a b y. yearLastWith sep s = Some (a, b, y) \<and> length (splitOn sep s ! 2) = 2
             \<longrightarrow> y = twoDigitYear (number (splitOn sep s ! 2))
               \<and> 0 \<le> number (splitOn sep s ! 2) \<and> number (splitOn sep s ! 2) \<le> 99"
    using yearLastWith_two_digit by blast
  have d: "ParseDate rt ''01/02/30'' (Some opts)
           = Inr (goDate 2030 1 2 0 0 0 0 (case PreferredTimezone opts of None \<Rightarrow> UTC | Some l \<Rightarrow> l))"
    using assms
    by (intro short_year_run) (simp_all add: slash_short_facts twoDigitYear_values valid_small)
  have e: "ParseDate rt ''01/02/05'' (Some opts)
           = Inr (goDate 2005 1 2 0 0 0 0 (case PreferredTimezone opts of None \<Rightarrow> UTC | Some l \<Rightarrow> l))"
    using assms
    by (intro short_year_run) (simp_all add: slash_short_facts twoDigitYear_values valid_small)
  show ?thesis using a b c d e by blast
qed

theorem two_digit_years_witness:
  "ParseDate (example_runtime noon_2024_10_02 :: unit runtime) ''01/02/30'' (Some DefaultSettings)
     = Inr (goDate 2030 1 2 0 0 0 0 UTC)
   \<and> ParseDate (example_runtime noon_2024_10_02 :: unit runtime) ''01/02/05'' (Some DefaultSettings)
     = Inr (goDate 2005 1 2 0 0 0 0 UTC)
   \<and> twoDigitYear 69 = 2069 \<and> twoDigitYear 70 = 1970"
proof -
  let ?rt = "example_runtime noon_2024_10_02 :: unit runtime"
  have ab: "parseAbsolute ?rt = parseAbsolute_numeric no_match"
    by (simp add: example_runtime_fields)
  have ts: "\<forall>c. input c = ''01/02/30'' \<or> input c = ''01/02/05''
             \<longrightarrow> fails_generically (parseTimestamp ?rt c)"
    by (simp add: example_runtime_fields no_match_generic)
  have en: "EnableParsers DefaultSettings = [] \<or> ''absolute'' \<in> set (EnableParsers DefaultSettings)"
    and mdy: "DateOrder DefaultSettings = ''MDY''"
    by (simp_all add: DefaultSettings_def)
  show ?thesis
    using two_digit_years[OF ab en mdy ts] by (simp add: DefaultSettings_def)
qed

text \<open>
  Claim C4 as stated has \<open>01/02/30\<close> resolve to 1930.  By the rule it states, 30 is among
  00 to 69 and resolves to 2030.
\<close>

theorem two_digit_years_counterexample:
  "ParseDate (example_runtime noon_2024_10_02 :: unit runtime) ''01/02/30'' (Some DefaultSettings)
     = Inr (goDate 2030 1 2 0 0 0 0 UTC)
   \<and> goDate 2030 1 2 0 0 0 0 UTC \<noteq> goDate 1930 1 2 0 0 0 0 UTC
   \<and> twoDigitYear 30 = 2030"
proof -
  let ?rt = "example_runtime noon_2024_10_02 :: unit runtime"
  have "ParseDate ?rt ''01/02/30'' (Some DefaultSettings)
     = Inr (goDate 2030 1 2 0 0 0 0
              (case PreferredTimezone DefaultSettings of None \<Rightarrow> UTC | Some l \<Rightarrow> l))"
    by (intro short_year_run)
       (simp_all add: example_runtime_fields no_match_generic DefaultSettings_def slash_short_facts
          twoDigitYear_values valid_small)
  then show ?thesis
    using years_differ by (simp add: DefaultSettings_def twoDigitYear_values)
qed

end
